theory Spec2Isabelle
  imports Complex_Main "HOL-Library.Sublist" "HOL-Library.Multiset"
begin

section \<open>JavaScript numbers\<close>

text \<open>
  The records tab computes with JavaScript numbers. The stat fields of a career player
  and of a season snapshot are finite numbers and are modelled as reals; every derived
  value (a ratio, a pace, a comparator result) is a \<open>number\<close>, which adds the three
  non-finite results of IEEE arithmetic, so that a division by zero is visible in the
  model as \<open>PInf\<close>, \<open>NInf\<close> or \<open>NaN\<close> instead of being absorbed by HOL's
  \<open>x / 0 = 0\<close>. Rounding and the sign of zero are not modelled.
\<close>

datatype number = Fin real | PInf | NInf | NaN

fun js_lt :: "number \<Rightarrow> number \<Rightarrow> bool" where
  "js_lt NaN y = False"
| "js_lt x NaN = False"
| "js_lt (Fin a) (Fin b) = (a < b)"
| "js_lt (Fin a) PInf = True"
| "js_lt NInf (Fin b) = True"
| "js_lt NInf PInf = True"
| "js_lt x y = False"

definition js_gt :: "number \<Rightarrow> number \<Rightarrow> bool" where
  "js_gt x y = js_lt y x"

definition js_le :: "number \<Rightarrow> number \<Rightarrow> bool" where
  "js_le x y = (x \<noteq> NaN \<and> y \<noteq> NaN \<and> \<not> js_lt y x)"

definition js_ge :: "number \<Rightarrow> number \<Rightarrow> bool" where
  "js_ge x y = js_le y x"

fun js_sub :: "number \<Rightarrow> number \<Rightarrow> number" where
  "js_sub NaN y = NaN"
| "js_sub x NaN = NaN"
| "js_sub (Fin a) (Fin b) = Fin (a - b)"
| "js_sub PInf PInf = NaN"
| "js_sub NInf NInf = NaN"
| "js_sub PInf y = PInf"
| "js_sub NInf y = NInf"
| "js_sub (Fin a) PInf = NInf"
| "js_sub (Fin a) NInf = PInf"

fun js_neg :: "number \<Rightarrow> number" where
  "js_neg (Fin a) = Fin (- a)"
| "js_neg PInf = NInf"
| "js_neg NInf = PInf"
| "js_neg NaN = NaN"

fun js_mul :: "number \<Rightarrow> number \<Rightarrow> number" where
  "js_mul NaN y = NaN"
| "js_mul x NaN = NaN"
| "js_mul (Fin a) (Fin b) = Fin (a * b)"
| "js_mul (Fin a) y = (if a = 0 then NaN else if 0 < a then y else js_neg y)"
| "js_mul x (Fin b) = (if b = 0 then NaN else if 0 < b then x else js_neg x)"
| "js_mul PInf y = y"
| "js_mul NInf y = js_neg y"

fun js_div :: "number \<Rightarrow> number \<Rightarrow> number" where
  "js_div NaN y = NaN"
| "js_div x NaN = NaN"
| "js_div (Fin a) (Fin b) =
     (if b \<noteq> 0 then Fin (a / b)
      else if a = 0 then NaN else if 0 < a then PInf else NInf)"
| "js_div (Fin a) y = Fin 0"
| "js_div x (Fin b) = (if 0 \<le> b then x else js_neg x)"
| "js_div x y = NaN"

text \<open>\<open>Math.ceil\<close>.\<close>

fun js_ceil :: "number \<Rightarrow> number" where
  "js_ceil (Fin a) = Fin (of_int \<lceil>a\<rceil>)"
| "js_ceil x = x"

section \<open>Array methods\<close>

text \<open>
  \<open>Array.prototype.sort\<close> with a comparator. The language makes the sort stable and
  reads a comparator result \<open>NaN\<close> as \<open>+0\<close>; for a comparator that is a consistent
  ordering of the elements the result is the unique stable arrangement, which the
  insertion sort below computes. \<open>cmp_le0 v\<close> says that a comparator result \<open>v\<close> lets
  the first argument stay in front of the second.
\<close>

fun cmp_le0 :: "number \<Rightarrow> bool" where
  "cmp_le0 (Fin v) = (v \<le> 0)"
| "cmp_le0 NInf = True"
| "cmp_le0 NaN = True"
| "cmp_le0 PInf = False"

fun js_insert :: "('a \<Rightarrow> 'a \<Rightarrow> number) \<Rightarrow> 'a \<Rightarrow> 'a list \<Rightarrow> 'a list" where
  "js_insert cmp x [] = [x]"
| "js_insert cmp x (y # ys) =
     (if cmp_le0 (cmp x y) then x # y # ys else y # js_insert cmp x ys)"

fun js_sort :: "('a \<Rightarrow> 'a \<Rightarrow> number) \<Rightarrow> 'a list \<Rightarrow> 'a list" where
  "js_sort cmp [] = []"
| "js_sort cmp (x # xs) = js_insert cmp x (js_sort cmp xs)"

text \<open>
  \<open>xs.slice(0, n)\<close> for an integer \<open>n\<close>: a negative end counts from the end of the
  array, so \<open>slice(0, -1)\<close> drops the last element.
\<close>

definition js_slice0 :: "int \<Rightarrow> 'a list \<Rightarrow> 'a list" where
  "js_slice0 n xs = take (nat (if n < 0 then int (length xs) + n else n)) xs"

text \<open>\<open>xs[0]\<close>, which is \<open>undefined\<close> on an empty array.\<close>

fun js_first :: "'a list \<Rightarrow> 'a option" where
  "js_first [] = None"
| "js_first (x # xs) = Some x"

section \<open>Data model\<close>

text \<open>
  Modelled from the spec: the declarations of \<open>types/player\<close> are not among the
  sources. A career player carries the aggregate totals the records tab reads; one
  record type serves every position collection, with the fields of the other positions
  unused.
\<close>

record CareerPlayer =
  name :: string
  team :: "string option"
  position :: string
  status :: string
  games :: real
  passYds :: real
  passTD :: real
  attempts :: real
  completions :: real
  interceptions :: real
  rushYds :: real
  rushTD :: real
  rushAtt :: real
  recYds :: real
  recTD :: real
  receptions :: real
  tackles :: real
  sacks :: real
  forcedFumbles :: real
  rings :: real
  mvp :: real
  careerLegacy :: real
  dominance :: real

record CareerData =
  quarterbacks :: "CareerPlayer list"
  runningbacks :: "CareerPlayer list"
  widereceivers :: "CareerPlayer list"
  tightends :: "CareerPlayer list"
  offensiveline :: "CareerPlayer list"
  linebackers :: "CareerPlayer list"
  defensivebacks :: "CareerPlayer list"
  defensiveline :: "CareerPlayer list"

record RecordEntry =
  stat :: string
  "value" :: number
  playerName :: string
  team :: "string option"
  position :: string
  season :: "string option"

record TopNRecord =
  stat :: string
  description :: string
  entries :: "RecordEntry list"

section \<open>Career leaderboards\<close>

text \<open>The local \<open>sorted\<close> of \<open>findTopN\<close>: copy, filter, sort, slice.\<close>

definition findTopN_sorted ::
  "CareerPlayer list \<Rightarrow> (CareerPlayer \<Rightarrow> number) \<Rightarrow> int \<Rightarrow> CareerPlayer list" where
  "findTopN_sorted players getValue n =
     js_slice0 n
       (js_sort (\<lambda>a b. js_sub (getValue b) (getValue a))
          (filter (\<lambda>p. js_gt (getValue p) (Fin 0)) players))"

text \<open>The entry that \<open>sorted.map\<close> builds for a selected player.\<close>

definition entryOf :: "string \<Rightarrow> (CareerPlayer \<Rightarrow> number) \<Rightarrow> CareerPlayer \<Rightarrow> RecordEntry" where
  "entryOf st getValue p =
     \<lparr> RecordEntry.stat = st,
       RecordEntry.value = getValue p,
       RecordEntry.playerName = CareerPlayer.name p,
       RecordEntry.team = CareerPlayer.team p,
       RecordEntry.position = CareerPlayer.position p,
       RecordEntry.season = None \<rparr>"

definition findTopN ::
  "CareerPlayer list \<Rightarrow> (CareerPlayer \<Rightarrow> number) \<Rightarrow> string \<Rightarrow> string \<Rightarrow> int
     \<Rightarrow> TopNRecord option" where
  "findTopN players getValue st descr n =
     (if length players = 0 then None
      else let top = findTopN_sorted players getValue n
           in if length top = 0 then None
              else Some \<lparr> TopNRecord.stat = st,
                          TopNRecord.description = descr,
                          TopNRecord.entries = map (entryOf st getValue) top \<rparr>)"

text \<open>
  The value functions of the ratio leaderboards of \<open>records\<close>, each the arrow
  function the source passes to \<open>findTopN\<close>.
\<close>

definition qbYPA_value :: "CareerPlayer \<Rightarrow> number" where
  "qbYPA_value p =
     (if CareerPlayer.attempts p > 0
      then js_div (Fin (CareerPlayer.passYds p)) (Fin (CareerPlayer.attempts p)) else Fin 0)"

definition qbTDINT_value :: "CareerPlayer \<Rightarrow> number" where
  "qbTDINT_value p =
     (if CareerPlayer.interceptions p > 0
      then js_div (Fin (CareerPlayer.passTD p)) (Fin (CareerPlayer.interceptions p))
      else Fin (CareerPlayer.passTD p))"

definition rbYPC_value :: "CareerPlayer \<Rightarrow> number" where
  "rbYPC_value p =
     (if CareerPlayer.rushAtt p > 0
      then js_div (Fin (CareerPlayer.rushYds p)) (Fin (CareerPlayer.rushAtt p)) else Fin 0)"

definition rbYPG_value :: "CareerPlayer \<Rightarrow> number" where
  "rbYPG_value p =
     (if CareerPlayer.games p > 0
      then js_div (Fin (CareerPlayer.rushYds p + CareerPlayer.recYds p)) (Fin (CareerPlayer.games p))
      else Fin 0)"

definition wrYPR_value :: "CareerPlayer \<Rightarrow> number" where
  "wrYPR_value p =
     (if CareerPlayer.receptions p > 0
      then js_div (Fin (CareerPlayer.recYds p)) (Fin (CareerPlayer.receptions p)) else Fin 0)"

definition wrTDPG_value :: "CareerPlayer \<Rightarrow> number" where
  "wrTDPG_value p =
     (if CareerPlayer.games p > 0
      then js_mul (js_div (Fin (CareerPlayer.recTD p)) (Fin (CareerPlayer.games p))) (Fin 16)
      else Fin 0)"

definition defTPG_value :: "CareerPlayer \<Rightarrow> number" where
  "defTPG_value p =
     (if CareerPlayer.games p > 0
      then js_div (Fin (CareerPlayer.tackles p)) (Fin (CareerPlayer.games p)) else Fin 0)"

definition qbPassYds_value :: "CareerPlayer \<Rightarrow> number" where
  "qbPassYds_value p = Fin (CareerPlayer.passYds p)"

definition allDef :: "CareerData \<Rightarrow> CareerPlayer list" where
  "allDef careerData =
     linebackers careerData @ defensivebacks careerData @ defensiveline careerData"

text \<open>The leaderboards of \<open>records\<close> that the ratio metrics feed, and career passing yards.\<close>

definition records_qbPassYds :: "CareerData \<Rightarrow> TopNRecord option" where
  "records_qbPassYds careerData =
     findTopN (quarterbacks careerData) qbPassYds_value
       ''Career Passing Yards'' ''Total passing yards'' 5"

definition records_qbYPA :: "CareerData \<Rightarrow> TopNRecord option" where
  "records_qbYPA careerData =
     findTopN (quarterbacks careerData) qbYPA_value ''Yards Per Attempt'' ''Pass efficiency'' 5"

definition records_qbTDINT :: "CareerData \<Rightarrow> TopNRecord option" where
  "records_qbTDINT careerData =
     findTopN (quarterbacks careerData) qbTDINT_value ''TD/INT Ratio'' ''Decision making'' 5"

definition records_rbYPC :: "CareerData \<Rightarrow> TopNRecord option" where
  "records_rbYPC careerData =
     findTopN (runningbacks careerData) rbYPC_value ''Yards Per Carry'' ''Rushing efficiency'' 5"

definition records_rbYPG :: "CareerData \<Rightarrow> TopNRecord option" where
  "records_rbYPG careerData =
     findTopN (runningbacks careerData) rbYPG_value ''Yds/Game'' ''Avg per game'' 5"

definition records_wrYPR :: "CareerData \<Rightarrow> TopNRecord option" where
  "records_wrYPR careerData =
     findTopN (widereceivers careerData) wrYPR_value ''Yards Per Rec'' ''Catch efficiency'' 5"

definition records_wrTDPG :: "CareerData \<Rightarrow> TopNRecord option" where
  "records_wrTDPG careerData =
     findTopN (widereceivers careerData) wrTDPG_value ''TDs/16 Games'' ''TD rate'' 5"

definition records_defTPG :: "CareerData \<Rightarrow> TopNRecord option" where
  "records_defTPG careerData =
     findTopN (allDef careerData) defTPG_value ''Tackles/Game'' ''Avg tackles'' 5"

section \<open>Advanced metrics: single leaders\<close>

text \<open>
  Each leader is \<open>xs.filter(...).sort((a, b) => ratio(b) - ratio(a))[0]\<close>; the divisions
  in the comparators are not guarded, only the filter in front of them is.
\<close>

definition topQBEff :: "CareerPlayer list \<Rightarrow> CareerPlayer option" where
  "topQBEff qbs =
     js_first (js_sort
       (\<lambda>a b. js_sub (js_div (Fin (CareerPlayer.passYds b)) (Fin (CareerPlayer.attempts b)))
                      (js_div (Fin (CareerPlayer.passYds a)) (Fin (CareerPlayer.attempts a))))
       (filter (\<lambda>p. CareerPlayer.attempts p > 200) qbs))"

definition topTDINT :: "CareerPlayer list \<Rightarrow> CareerPlayer option" where
  "topTDINT qbs =
     js_first (js_sort
       (\<lambda>a b. js_sub (js_div (Fin (CareerPlayer.passTD b)) (Fin (CareerPlayer.interceptions b)))
                      (js_div (Fin (CareerPlayer.passTD a)) (Fin (CareerPlayer.interceptions a))))
       (filter (\<lambda>p. CareerPlayer.interceptions p > 0) qbs))"

definition topCompPct :: "CareerPlayer list \<Rightarrow> CareerPlayer option" where
  "topCompPct qbs =
     js_first (js_sort
       (\<lambda>a b. js_sub (js_div (Fin (CareerPlayer.completions b)) (Fin (CareerPlayer.attempts b)))
                      (js_div (Fin (CareerPlayer.completions a)) (Fin (CareerPlayer.attempts a))))
       (filter (\<lambda>p. CareerPlayer.attempts p > 200) qbs))"

definition topYPC :: "CareerPlayer list \<Rightarrow> CareerPlayer option" where
  "topYPC rbs =
     js_first (js_sort
       (\<lambda>a b. js_sub (js_div (Fin (CareerPlayer.rushYds b)) (Fin (CareerPlayer.rushAtt b)))
                      (js_div (Fin (CareerPlayer.rushYds a)) (Fin (CareerPlayer.rushAtt a))))
       (filter (\<lambda>p. CareerPlayer.rushAtt p > 100) rbs))"

definition topScrimmageYPG :: "CareerPlayer list \<Rightarrow> CareerPlayer option" where
  "topScrimmageYPG rbs =
     js_first (js_sort
       (\<lambda>a b. js_sub (js_div (Fin (CareerPlayer.rushYds b + CareerPlayer.recYds b))
                              (Fin (CareerPlayer.games b)))
                      (js_div (Fin (CareerPlayer.rushYds a + CareerPlayer.recYds a))
                              (Fin (CareerPlayer.games a))))
       (filter (\<lambda>p. CareerPlayer.games p > 16) rbs))"

definition topYPR :: "CareerPlayer list \<Rightarrow> CareerPlayer option" where
  "topYPR wrs =
     js_first (js_sort
       (\<lambda>a b. js_sub (js_div (Fin (CareerPlayer.recYds b)) (Fin (CareerPlayer.receptions b)))
                      (js_div (Fin (CareerPlayer.recYds a)) (Fin (CareerPlayer.receptions a))))
       (filter (\<lambda>p. CareerPlayer.receptions p > 50) wrs))"

definition topRecYPG :: "CareerPlayer list \<Rightarrow> CareerPlayer option" where
  "topRecYPG wrs =
     js_first (js_sort
       (\<lambda>a b. js_sub (js_div (Fin (CareerPlayer.recYds b)) (Fin (CareerPlayer.games b)))
                      (js_div (Fin (CareerPlayer.recYds a)) (Fin (CareerPlayer.games a))))
       (filter (\<lambda>p. CareerPlayer.games p > 16) wrs))"

definition topSackRate :: "CareerPlayer list \<Rightarrow> CareerPlayer option" where
  "topSackRate defs =
     js_first (js_sort
       (\<lambda>a b. js_sub (js_div (Fin (CareerPlayer.sacks b)) (Fin (CareerPlayer.games b)))
                      (js_div (Fin (CareerPlayer.sacks a)) (Fin (CareerPlayer.games a))))
       (filter (\<lambda>p. CareerPlayer.games p > 32) defs))"

definition topBallHawk :: "CareerPlayer list \<Rightarrow> CareerPlayer option" where
  "topBallHawk defs =
     js_first (js_sort
       (\<lambda>a b. js_sub (js_div (Fin (CareerPlayer.interceptions b + CareerPlayer.forcedFumbles b))
                              (Fin (CareerPlayer.games b)))
                      (js_div (Fin (CareerPlayer.interceptions a + CareerPlayer.forcedFumbles a))
                              (Fin (CareerPlayer.games a))))
       (filter (\<lambda>p. CareerPlayer.games p > 32) defs))"

text \<open>
  An entry of the metrics dashboard. The \<open>icon\<close> and \<open>color\<close> fields of the source are
  presentation and are left out.
\<close>

record AdvancedMetric =
  name :: string
  "value" :: number
  playerName :: string
  team :: "string option"
  position :: string
  description :: string

text \<open>\<open>if (leader) metrics.push({...})\<close>: nothing is pushed for an absent leader.\<close>

fun push_metric ::
  "CareerPlayer option \<Rightarrow> (CareerPlayer \<Rightarrow> AdvancedMetric) \<Rightarrow> AdvancedMetric list
     \<Rightarrow> AdvancedMetric list" where
  "push_metric None mk metrics = metrics"
| "push_metric (Some p) mk metrics = metrics @ [mk p]"

definition advancedMetrics :: "CareerData \<Rightarrow> AdvancedMetric list" where
  "advancedMetrics careerData =
     (let qbs = quarterbacks careerData;
          rbs = runningbacks careerData;
          wrs = widereceivers careerData;
          defs = allDef careerData;
          metrics = [];
          metrics = push_metric (topQBEff qbs)
            (\<lambda>p. \<lparr> AdvancedMetric.name = ''Best Yards/Attempt'',
                    AdvancedMetric.value =
                      js_div (Fin (CareerPlayer.passYds p)) (Fin (CareerPlayer.attempts p)),
                    AdvancedMetric.playerName = CareerPlayer.name p,
                    AdvancedMetric.team = CareerPlayer.team p,
                    AdvancedMetric.position = ''QB'',
                    AdvancedMetric.description =
                      ''Highest career yards per pass attempt (min 200 attempts)'' \<rparr>) metrics;
          metrics = push_metric (topTDINT qbs)
            (\<lambda>p. \<lparr> AdvancedMetric.name = ''Best TD/INT Ratio'',
                    AdvancedMetric.value =
                      js_div (Fin (CareerPlayer.passTD p)) (Fin (CareerPlayer.interceptions p)),
                    AdvancedMetric.playerName = CareerPlayer.name p,
                    AdvancedMetric.team = CareerPlayer.team p,
                    AdvancedMetric.position = ''QB'',
                    AdvancedMetric.description =
                      ''Most touchdowns per interception thrown'' \<rparr>) metrics;
          metrics = push_metric (topCompPct qbs)
            (\<lambda>p. \<lparr> AdvancedMetric.name = ''Completion %'',
                    AdvancedMetric.value =
                      js_mul (js_div (Fin (CareerPlayer.completions p))
                                     (Fin (CareerPlayer.attempts p))) (Fin 100),
                    AdvancedMetric.playerName = CareerPlayer.name p,
                    AdvancedMetric.team = CareerPlayer.team p,
                    AdvancedMetric.position = ''QB'',
                    AdvancedMetric.description =
                      ''Highest career completion percentage'' \<rparr>) metrics;
          metrics = push_metric (topYPC rbs)
            (\<lambda>p. \<lparr> AdvancedMetric.name = ''Best Yards/Carry'',
                    AdvancedMetric.value =
                      js_div (Fin (CareerPlayer.rushYds p)) (Fin (CareerPlayer.rushAtt p)),
                    AdvancedMetric.playerName = CareerPlayer.name p,
                    AdvancedMetric.team = CareerPlayer.team p,
                    AdvancedMetric.position = ''RB'',
                    AdvancedMetric.description =
                      ''Highest career yards per rush attempt'' \<rparr>) metrics;
          metrics = push_metric (topScrimmageYPG rbs)
            (\<lambda>p. \<lparr> AdvancedMetric.name = ''Scrimmage Yds/Game'',
                    AdvancedMetric.value =
                      js_div (Fin (CareerPlayer.rushYds p + CareerPlayer.recYds p))
                             (Fin (CareerPlayer.games p)),
                    AdvancedMetric.playerName = CareerPlayer.name p,
                    AdvancedMetric.team = CareerPlayer.team p,
                    AdvancedMetric.position = ''RB'',
                    AdvancedMetric.description =
                      ''Combined rushing + receiving yards per game'' \<rparr>) metrics;
          metrics = push_metric (topYPR wrs)
            (\<lambda>p. \<lparr> AdvancedMetric.name = ''Best Yards/Catch'',
                    AdvancedMetric.value =
                      js_div (Fin (CareerPlayer.recYds p)) (Fin (CareerPlayer.receptions p)),
                    AdvancedMetric.playerName = CareerPlayer.name p,
                    AdvancedMetric.team = CareerPlayer.team p,
                    AdvancedMetric.position = ''WR'',
                    AdvancedMetric.description =
                      ''Highest yards per reception (min 50 catches)'' \<rparr>) metrics;
          metrics = push_metric (topRecYPG wrs)
            (\<lambda>p. \<lparr> AdvancedMetric.name = ''Receiving Yds/Game'',
                    AdvancedMetric.value =
                      js_div (Fin (CareerPlayer.recYds p)) (Fin (CareerPlayer.games p)),
                    AdvancedMetric.playerName = CareerPlayer.name p,
                    AdvancedMetric.team = CareerPlayer.team p,
                    AdvancedMetric.position = ''WR'',
                    AdvancedMetric.description =
                      ''Highest receiving yards per game played'' \<rparr>) metrics;
          metrics = push_metric (topSackRate defs)
            (\<lambda>p. \<lparr> AdvancedMetric.name = ''Sacks/Game'',
                    AdvancedMetric.value =
                      js_div (Fin (CareerPlayer.sacks p)) (Fin (CareerPlayer.games p)),
                    AdvancedMetric.playerName = CareerPlayer.name p,
                    AdvancedMetric.team = CareerPlayer.team p,
                    AdvancedMetric.position = CareerPlayer.position p,
                    AdvancedMetric.description =
                      ''Highest sacks per game (min 32 games)'' \<rparr>) metrics;
          metrics = push_metric (topBallHawk defs)
            (\<lambda>p. \<lparr> AdvancedMetric.name = ''Turnovers/Game'',
                    AdvancedMetric.value =
                      js_div (Fin (CareerPlayer.interceptions p + CareerPlayer.forcedFumbles p))
                             (Fin (CareerPlayer.games p)),
                    AdvancedMetric.playerName = CareerPlayer.name p,
                    AdvancedMetric.team = CareerPlayer.team p,
                    AdvancedMetric.position = CareerPlayer.position p,
                    AdvancedMetric.description =
                      ''Interceptions + forced fumbles per game'' \<rparr>) metrics
      in metrics)"

section \<open>Pace to break records\<close>

record PaceToRecord =
  playerName :: string
  position :: string
  team :: "string option"
  recordName :: string
  currentValue :: real
  recordValue :: real
  recordHolder :: string
  seasonsToBreak :: number
  pacePerSeason :: number
  percentToRecord :: number

text \<open>
  The body of the three \<open>forEach\<close> loops over the active quarterbacks, running backs and
  wide receivers. The loops of the source differ only in the stat they read
  (\<open>passYds\<close>, \<open>rushYds\<close>, \<open>recYds\<close>), the position label and the record name, which are
  the first three parameters here; \<open>paceRecords\<close> is the array the loops push to.
\<close>

definition paceStep ::
  "(CareerPlayer \<Rightarrow> real) \<Rightarrow> string \<Rightarrow> string \<Rightarrow> real \<Rightarrow> CareerPlayer option
     \<Rightarrow> PaceToRecord list \<Rightarrow> CareerPlayer \<Rightarrow> PaceToRecord list" where
  "paceStep yds pos recName ydsRecord ydsHolder paceRecords pl =
     (let ydsPerSeason =
            (if CareerPlayer.games pl > 0
             then js_mul (js_div (Fin (yds pl)) (Fin (CareerPlayer.games pl))) (Fin 16)
             else Fin 0)
      in if js_gt ydsPerSeason (Fin 0) \<and> yds pl < ydsRecord then
           (case ydsHolder of
              None \<Rightarrow> paceRecords
            | Some holder \<Rightarrow>
                let remaining = ydsRecord - yds pl;
                    stb = js_ceil (js_div (Fin remaining) ydsPerSeason)
                in if js_le stb (Fin 5) then
                     paceRecords @
                       [\<lparr> PaceToRecord.playerName = CareerPlayer.name pl,
                          PaceToRecord.position = pos,
                          PaceToRecord.team = CareerPlayer.team pl,
                          PaceToRecord.recordName = recName,
                          PaceToRecord.currentValue = yds pl,
                          PaceToRecord.recordValue = ydsRecord,
                          PaceToRecord.recordHolder = CareerPlayer.name holder,
                          PaceToRecord.seasonsToBreak = stb,
                          PaceToRecord.pacePerSeason = ydsPerSeason,
                          PaceToRecord.percentToRecord =
                            js_mul (js_div (Fin (yds pl)) (Fin ydsRecord)) (Fin 100) \<rparr>]
                   else paceRecords)
         else paceRecords)"

text \<open>\<open>xs.length > 0 ? Math.max(...xs.map(stat)) : 0\<close>.\<close>

definition recordOf :: "(CareerPlayer \<Rightarrow> real) \<Rightarrow> CareerPlayer list \<Rightarrow> real" where
  "recordOf yds xs = (if length xs > 0 then Max (set (map yds xs)) else 0)"

definition activeWith16 :: "CareerPlayer list \<Rightarrow> CareerPlayer list" where
  "activeWith16 xs =
     filter (\<lambda>q. CareerPlayer.status q = ''Active'' \<and> CareerPlayer.games q \<ge> 16) xs"

text \<open>The array \<open>paceRecords\<close> as the three loops leave it.\<close>

definition paceRecords :: "CareerData \<Rightarrow> PaceToRecord list" where
  "paceRecords careerData =
     (let qbs = quarterbacks careerData;
          rbs = runningbacks careerData;
          wrs = widereceivers careerData;
          paceRecords = [];
          passYdsRecord = recordOf CareerPlayer.passYds qbs;
          passYdsHolder = List.find (\<lambda>q. CareerPlayer.passYds q = passYdsRecord) qbs;
          rushYdsRecord = recordOf CareerPlayer.rushYds rbs;
          rushYdsHolder = List.find (\<lambda>r. CareerPlayer.rushYds r = rushYdsRecord) rbs;
          recYdsRecord = recordOf CareerPlayer.recYds wrs;
          recYdsHolder = List.find (\<lambda>w. CareerPlayer.recYds w = recYdsRecord) wrs;
          activeQBs = activeWith16 qbs;
          paceRecords =
            foldl (paceStep CareerPlayer.passYds ''QB'' ''Career Passing Yards''
                     passYdsRecord passYdsHolder) paceRecords activeQBs;
          activeRBs = activeWith16 rbs;
          paceRecords =
            foldl (paceStep CareerPlayer.rushYds ''RB'' ''Career Rushing Yards''
                     rushYdsRecord rushYdsHolder) paceRecords activeRBs;
          activeWRs = activeWith16 wrs;
          paceRecords =
            foldl (paceStep CareerPlayer.recYds ''WR'' ''Career Receiving Yards''
                     recYdsRecord recYdsHolder) paceRecords activeWRs
      in paceRecords)"

text \<open>\<open>paceRecords.sort((a, b) => a.seasonsToBreak - b.seasonsToBreak)\<close>, the value returned.\<close>

definition paceToRecords :: "CareerData \<Rightarrow> PaceToRecord list" where
  "paceToRecords careerData =
     js_sort (\<lambda>a b. js_sub (PaceToRecord.seasonsToBreak a) (PaceToRecord.seasonsToBreak b))
       (paceRecords careerData)"

section \<open>Season snapshots and the season score\<close>

text \<open>
  Modelled from the spec: the \<open>SeasonSnapshot\<close> declaration of \<open>utils/seasonHistory\<close> is
  not among the sources. A snapshot is a season label and a sparse set of numeric
  fields, each absent (\<open>None\<close>) or a number; the fields are those the records tab reads.
\<close>

record SeasonSnapshot =
  season :: string
  passYds :: "real option"
  passTD :: "real option"
  rushYds :: "real option"
  rushTD :: "real option"
  interceptions :: "real option"
  recYds :: "real option"
  recTD :: "real option"
  receptions :: "real option"
  tackles :: "real option"
  sacks :: "real option"
  forcedFumbles :: "real option"
  mvp :: "real option"
  opoy :: "real option"
  sbmvp :: "real option"
  roty :: "real option"
  rings :: "real option"

text \<open>\<open>x || 0\<close> on an optional number: an absent field and a zero both give 0.\<close>

fun or0 :: "real option \<Rightarrow> real" where
  "or0 None = 0"
| "or0 (Some v) = v"

definition calculateSeasonScore :: "SeasonSnapshot \<Rightarrow> string \<Rightarrow> real" where
  "calculateSeasonScore snapshot pos =
     (let awardBonus =
            or0 (SeasonSnapshot.mvp snapshot) * 100 +
            or0 (SeasonSnapshot.opoy snapshot) * 75 +
            or0 (SeasonSnapshot.sbmvp snapshot) * 80 +
            or0 (SeasonSnapshot.roty snapshot) * 50 +
            or0 (SeasonSnapshot.rings snapshot) * 60
      in if pos = ''QB'' then
           or0 (SeasonSnapshot.passYds snapshot) / 50 +
           or0 (SeasonSnapshot.passTD snapshot) * 10 +
           or0 (SeasonSnapshot.rushYds snapshot) / 20 +
           or0 (SeasonSnapshot.rushTD snapshot) * 15 -
           or0 (SeasonSnapshot.interceptions snapshot) * 5 +
           awardBonus
         else if pos = ''RB'' then
           or0 (SeasonSnapshot.rushYds snapshot) / 20 +
           or0 (SeasonSnapshot.rushTD snapshot) * 15 +
           or0 (SeasonSnapshot.recYds snapshot) / 30 +
           or0 (SeasonSnapshot.recTD snapshot) * 10 +
           awardBonus
         else if pos = ''WR'' \<or> pos = ''TE'' then
           or0 (SeasonSnapshot.recYds snapshot) / 20 +
           or0 (SeasonSnapshot.receptions snapshot) * 2 +
           or0 (SeasonSnapshot.recTD snapshot) * 15 +
           awardBonus
         else
           or0 (SeasonSnapshot.tackles snapshot) * 2 +
           or0 (SeasonSnapshot.sacks snapshot) * 15 +
           or0 (SeasonSnapshot.interceptions snapshot) * 20 +
           or0 (SeasonSnapshot.forcedFumbles snapshot) * 10 +
           awardBonus)"

record Tier =
  label :: string
  color :: string
  bg :: string
  border :: string

definition getSeasonTier :: "real \<Rightarrow> Tier" where
  "getSeasonTier score =
     (if score \<ge> 800 then
        \<lparr> label = ''LEGENDARY'', color = ''text-amber-400'', bg = ''bg-amber-500/15'',
          border = ''border-amber-500/40'' \<rparr>
      else if score \<ge> 600 then
        \<lparr> label = ''ELITE'', color = ''text-purple-400'', bg = ''bg-purple-500/15'',
          border = ''border-purple-500/40'' \<rparr>
      else if score \<ge> 400 then
        \<lparr> label = ''GREAT'', color = ''text-blue-400'', bg = ''bg-blue-500/15'',
          border = ''border-blue-500/40'' \<rparr>
      else if score \<ge> 250 then
        \<lparr> label = ''NOTABLE'', color = ''text-emerald-400'', bg = ''bg-emerald-500/15'',
          border = ''border-emerald-500/40'' \<rparr>
      else
        \<lparr> label = ''SOLID'', color = ''text-slate-400'', bg = ''bg-slate-500/15'',
          border = ''border-slate-500/40'' \<rparr>)"

section \<open>Season history\<close>

text \<open>
  \<open>loadSeasonHistory()\<close> is outside the sources; its result is a parameter of the model.
  \<open>Object.entries(history)\<close> is a list of (player key, snapshots) pairs in key order, in
  which no key occurs twice.
\<close>

type_synonym SeasonHistory = "(string \<times> SeasonSnapshot list) list"

text \<open>\<open>key.split(':')\<close> and \<open>parts.join(':')\<close>.\<close>

fun split_colon :: "string \<Rightarrow> string list" where
  "split_colon [] = [[]]"
| "split_colon (c # cs) =
     (if c = CHR '':'' then [] # split_colon cs
      else (case split_colon cs of
              [] \<Rightarrow> [[c]]
            | w # ws \<Rightarrow> (c # w) # ws))"

fun join_colon :: "string list \<Rightarrow> string" where
  "join_colon [] = []"
| "join_colon [w] = w"
| "join_colon (w # ws) = w @ CHR '':'' # join_colon ws"

text \<open>
  \<open>const [position, ...nameParts] = playerKey.split(':')\<close> and
  \<open>nameParts.join(':')\<close>. The split of a string always has a first part; the first
  line below is never reached.
\<close>

fun key_position :: "string list \<Rightarrow> string" where
  "key_position [] = []"
| "key_position (pos # nameParts) = pos"

fun key_name :: "string list \<Rightarrow> string" where
  "key_name [] = []"
| "key_name (pos # nameParts) = join_colon nameParts"

section \<open>Single-season records\<close>

text \<open>
  The two nested \<open>forEach\<close> loops that fill \<open>allSnapshots\<close>; the \<open>return\<close> in the outer
  callback skips a player with at most one snapshot.
\<close>

definition allSnapshots :: "SeasonHistory \<Rightarrow> (string \<times> SeasonSnapshot) list" where
  "allSnapshots history =
     foldl (\<lambda>acc (playerKey, snapshots).
              if length snapshots \<le> 1 then acc
              else foldl (\<lambda>acc snapshot. acc @ [(playerKey, snapshot)]) acc snapshots)
       [] history"

definition findTopNSeason_sorted ::
  "(string \<times> SeasonSnapshot) list \<Rightarrow> (string \<Rightarrow> bool) \<Rightarrow> (SeasonSnapshot \<Rightarrow> number) \<Rightarrow> int
     \<Rightarrow> (string \<times> SeasonSnapshot) list" where
  "findTopNSeason_sorted snaps flt getValue n =
     js_slice0 n
       (js_sort (\<lambda>a b. js_sub (getValue (snd b)) (getValue (snd a)))
          (filter (\<lambda>(playerKey, snapshot). js_gt (getValue snapshot) (Fin 0))
             (filter (\<lambda>(playerKey, snapshot). flt playerKey) snaps)))"

definition findTopNSeason ::
  "(string \<times> SeasonSnapshot) list \<Rightarrow> (string \<Rightarrow> bool) \<Rightarrow> (SeasonSnapshot \<Rightarrow> number)
     \<Rightarrow> string \<Rightarrow> string \<Rightarrow> int \<Rightarrow> TopNRecord option" where
  "findTopNSeason snaps flt getValue st descr n =
     (let filtered = filter (\<lambda>(playerKey, snapshot). flt playerKey) snaps
      in if length filtered = 0 then None
         else let top = findTopNSeason_sorted snaps flt getValue n
              in if length top = 0 then None
                 else Some \<lparr> TopNRecord.stat = st,
                             TopNRecord.description = descr,
                             TopNRecord.entries =
                               map (\<lambda>(playerKey, snapshot).
                                      \<lparr> RecordEntry.stat = st,
                                        RecordEntry.value = getValue snapshot,
                                        RecordEntry.playerName =
                                          key_name (split_colon playerKey),
                                        RecordEntry.team = None,
                                        RecordEntry.position =
                                          key_position (split_colon playerKey),
                                        RecordEntry.season =
                                          Some (SeasonSnapshot.season snapshot) \<rparr>) top \<rparr>)"

definition isDefKey :: "string \<Rightarrow> bool" where
  "isDefKey k = list_ex (\<lambda>p. prefix p k) [''LB:'', ''DB:'', ''DL:'']"

record SingleSeasonRecords =
  qbPassYds :: "TopNRecord option"
  qbPassTD :: "TopNRecord option"
  qbTotalTD :: "TopNRecord option"
  rbRushYds :: "TopNRecord option"
  rbRushTD :: "TopNRecord option"
  rbScrimmage :: "TopNRecord option"
  wrRecYds :: "TopNRecord option"
  wrRecTD :: "TopNRecord option"
  teRecYds :: "TopNRecord option"
  defTackles :: "TopNRecord option"
  defSacks :: "TopNRecord option"
  defINT :: "TopNRecord option"

definition singleSeasonRecords :: "SeasonHistory \<Rightarrow> SingleSeasonRecords option" where
  "singleSeasonRecords history =
     (let snaps = allSnapshots history
      in if length snaps = 0 then None
         else Some
           \<lparr> qbPassYds = findTopNSeason snaps (prefix ''QB:'')
               (\<lambda>s. Fin (or0 (SeasonSnapshot.passYds s))) ''Passing Yards'' ''Single season'' 5,
             qbPassTD = findTopNSeason snaps (prefix ''QB:'')
               (\<lambda>s. Fin (or0 (SeasonSnapshot.passTD s))) ''Passing TDs'' ''Single season'' 5,
             qbTotalTD = findTopNSeason snaps (prefix ''QB:'')
               (\<lambda>s. Fin (or0 (SeasonSnapshot.passTD s) + or0 (SeasonSnapshot.rushTD s)))
               ''Total TDs'' ''Pass + Rush'' 5,
             rbRushYds = findTopNSeason snaps (prefix ''RB:'')
               (\<lambda>s. Fin (or0 (SeasonSnapshot.rushYds s))) ''Rushing Yards'' ''Single season'' 5,
             rbRushTD = findTopNSeason snaps (prefix ''RB:'')
               (\<lambda>s. Fin (or0 (SeasonSnapshot.rushTD s))) ''Rushing TDs'' ''Single season'' 5,
             rbScrimmage = findTopNSeason snaps (prefix ''RB:'')
               (\<lambda>s. Fin (or0 (SeasonSnapshot.rushYds s) + or0 (SeasonSnapshot.recYds s)))
               ''Scrimmage Yds'' ''Rush + Rec'' 5,
             wrRecYds = findTopNSeason snaps (prefix ''WR:'')
               (\<lambda>s. Fin (or0 (SeasonSnapshot.recYds s))) ''Receiving Yards'' ''Single season'' 5,
             wrRecTD = findTopNSeason snaps (prefix ''WR:'')
               (\<lambda>s. Fin (or0 (SeasonSnapshot.recTD s))) ''Receiving TDs'' ''Single season'' 5,
             teRecYds = findTopNSeason snaps (prefix ''TE:'')
               (\<lambda>s. Fin (or0 (SeasonSnapshot.recYds s))) ''TE Rec Yards'' ''Single season'' 5,
             defTackles = findTopNSeason snaps isDefKey
               (\<lambda>s. Fin (or0 (SeasonSnapshot.tackles s))) ''Tackles'' ''Single season'' 5,
             defSacks = findTopNSeason snaps isDefKey
               (\<lambda>s. Fin (or0 (SeasonSnapshot.sacks s))) ''Sacks'' ''Single season'' 5,
             defINT = findTopNSeason snaps isDefKey
               (\<lambda>s. Fin (or0 (SeasonSnapshot.interceptions s))) ''INTs'' ''Single season'' 5 \<rparr>)"

text \<open>The twelve leaderboards of a result, for statements about all of them.\<close>

definition leaderboards :: "SingleSeasonRecords \<Rightarrow> TopNRecord option list" where
  "leaderboards r =
     [qbPassYds r, qbPassTD r, qbTotalTD r, rbRushYds r, rbRushTD r, rbScrimmage r,
      wrRecYds r, wrRecTD r, teRecYds r, defTackles r, defSacks r, defINT r]"

section \<open>Greatest seasons\<close>

record Awards =
  mvp :: real
  opoy :: real
  sbmvp :: real
  roty :: real
  rings :: real

text \<open>The optional \<open>team\<close> of a \<open>GreatSeason\<close> is never assigned by the source and is left out.\<close>

record GreatSeason =
  playerName :: string
  position :: string
  season :: string
  score :: real
  stats :: "(string \<times> real) list"
  awards :: Awards

text \<open>\<open>if (snapshot.f) stats.push({ label, value: snapshot.f })\<close>: pushed for a non-zero number.\<close>

fun push_stat :: "string \<Rightarrow> real option \<Rightarrow> (string \<times> real) list \<Rightarrow> (string \<times> real) list" where
  "push_stat lbl None sts = sts"
| "push_stat lbl (Some v) sts = (if v \<noteq> 0 then sts @ [(lbl, v)] else sts)"

definition seasonStats :: "string \<Rightarrow> SeasonSnapshot \<Rightarrow> (string \<times> real) list" where
  "seasonStats pos snapshot =
     (if pos = ''QB'' then
        push_stat ''Rush Yds'' (SeasonSnapshot.rushYds snapshot)
          (push_stat ''Pass TD'' (SeasonSnapshot.passTD snapshot)
            (push_stat ''Pass Yds'' (SeasonSnapshot.passYds snapshot) []))
      else if pos = ''RB'' then
        push_stat ''Rec Yds'' (SeasonSnapshot.recYds snapshot)
          (push_stat ''Rush TD'' (SeasonSnapshot.rushTD snapshot)
            (push_stat ''Rush Yds'' (SeasonSnapshot.rushYds snapshot) []))
      else if pos = ''WR'' \<or> pos = ''TE'' then
        push_stat ''Rec TD'' (SeasonSnapshot.recTD snapshot)
          (push_stat ''Rec'' (SeasonSnapshot.receptions snapshot)
            (push_stat ''Rec Yds'' (SeasonSnapshot.recYds snapshot) []))
      else
        push_stat ''INTs'' (SeasonSnapshot.interceptions snapshot)
          (push_stat ''Sacks'' (SeasonSnapshot.sacks snapshot)
            (push_stat ''Tackles'' (SeasonSnapshot.tackles snapshot) [])))"

text \<open>The object pushed to \<open>seasons\<close> for one snapshot of the player with key \<open>playerKey\<close>.\<close>

definition greatSeason :: "string \<Rightarrow> SeasonSnapshot \<Rightarrow> GreatSeason" where
  "greatSeason playerKey snapshot =
     (let pos = key_position (split_colon playerKey);
          pname = key_name (split_colon playerKey)
      in \<lparr> GreatSeason.playerName = pname,
           GreatSeason.position = pos,
           GreatSeason.season = SeasonSnapshot.season snapshot,
           GreatSeason.score = calculateSeasonScore snapshot pos,
           GreatSeason.stats = seasonStats pos snapshot,
           GreatSeason.awards =
             \<lparr> Awards.mvp = or0 (SeasonSnapshot.mvp snapshot),
               Awards.opoy = or0 (SeasonSnapshot.opoy snapshot),
               Awards.sbmvp = or0 (SeasonSnapshot.sbmvp snapshot),
               Awards.roty = or0 (SeasonSnapshot.roty snapshot),
               Awards.rings = or0 (SeasonSnapshot.rings snapshot) \<rparr> \<rparr>)"

definition greatestSeasons :: "SeasonHistory \<Rightarrow> GreatSeason list" where
  "greatestSeasons history =
     (let seasons =
            foldl (\<lambda>seasons (playerKey, snapshots).
                     if length snapshots \<le> 1 then seasons
                     else foldl (\<lambda>seasons snapshot. seasons @ [greatSeason playerKey snapshot])
                            seasons snapshots)
              [] history
      in js_slice0 20
           (js_sort (\<lambda>a b. Fin (GreatSeason.score b - GreatSeason.score a)) seasons))"

text \<open>
  The spec's wording of the same output. A player key is \<open>"POS:Name"\<close>: the position is
  what stands before the first colon and the name is what follows it. The entry of a
  snapshot carries that name and position, the snapshot's season label, its score for
  that position, its key stats and its award counts; the candidates are the entries of
  every snapshot of every player with more than one recorded season.
\<close>

definition spec_keyPosition :: "string \<Rightarrow> string" where
  "spec_keyPosition playerKey = takeWhile (\<lambda>c. c \<noteq> CHR '':'') playerKey"

definition spec_keyName :: "string \<Rightarrow> string" where
  "spec_keyName playerKey = drop 1 (dropWhile (\<lambda>c. c \<noteq> CHR '':'') playerKey)"

definition spec_greatSeason :: "string \<Rightarrow> SeasonSnapshot \<Rightarrow> GreatSeason" where
  "spec_greatSeason playerKey snapshot =
     \<lparr> GreatSeason.playerName = spec_keyName playerKey,
       GreatSeason.position = spec_keyPosition playerKey,
       GreatSeason.season = SeasonSnapshot.season snapshot,
       GreatSeason.score = calculateSeasonScore snapshot (spec_keyPosition playerKey),
       GreatSeason.stats = seasonStats (spec_keyPosition playerKey) snapshot,
       GreatSeason.awards =
         \<lparr> Awards.mvp = or0 (SeasonSnapshot.mvp snapshot),
           Awards.opoy = or0 (SeasonSnapshot.opoy snapshot),
           Awards.sbmvp = or0 (SeasonSnapshot.sbmvp snapshot),
           Awards.roty = or0 (SeasonSnapshot.roty snapshot),
           Awards.rings = or0 (SeasonSnapshot.rings snapshot) \<rparr> \<rparr>"

definition spec_scoredSnapshots :: "SeasonHistory \<Rightarrow> GreatSeason list" where
  "spec_scoredSnapshots history =
     concat (map (\<lambda>(playerKey, snapshots).
                    if length snapshots > 1 then map (spec_greatSeason playerKey) snapshots
                    else [])
               history)"

section \<open>Arrays as objects\<close>

text \<open>
  For the question whether a computation changes the array it is given, arrays are
  objects in a store, addressed by their index in it. \<open>[...a]\<close>, \<open>filter\<close> and \<open>slice\<close>
  allocate a new array; \<open>sort\<close> sorts the array it is called on in place and returns
  that same array. The player objects themselves are never written by the source.
\<close>

type_synonym 'a heap = "'a list list"

definition arr_new :: "'a list \<Rightarrow> 'a heap \<Rightarrow> nat \<times> 'a heap" where
  "arr_new xs h = (length h, h @ [xs])"

definition arr_copy :: "nat \<Rightarrow> 'a heap \<Rightarrow> nat \<times> 'a heap" where
  "arr_copy a h = arr_new (h ! a) h"

definition arr_filter :: "('a \<Rightarrow> bool) \<Rightarrow> nat \<Rightarrow> 'a heap \<Rightarrow> nat \<times> 'a heap" where
  "arr_filter P a h = arr_new (filter P (h ! a)) h"

definition arr_sort :: "('a \<Rightarrow> 'a \<Rightarrow> number) \<Rightarrow> nat \<Rightarrow> 'a heap \<Rightarrow> nat \<times> 'a heap" where
  "arr_sort cmp a h = (a, h[a := js_sort cmp (h ! a)])"

definition arr_slice0 :: "int \<Rightarrow> nat \<Rightarrow> 'a heap \<Rightarrow> nat \<times> 'a heap" where
  "arr_slice0 n a h = arr_new (js_slice0 n (h ! a)) h"

text \<open>\<open>findTopN\<close> on the store: \<open>players\<close> is the address of the input array.\<close>

definition findTopN_st ::
  "nat \<Rightarrow> (CareerPlayer \<Rightarrow> number) \<Rightarrow> string \<Rightarrow> string \<Rightarrow> int \<Rightarrow> CareerPlayer heap
     \<Rightarrow> TopNRecord option \<times> CareerPlayer heap" where
  "findTopN_st players getValue st descr n h =
     (if length (h ! players) = 0 then (None, h)
      else let (a1, h1) = arr_copy players h;
               (a2, h2) = arr_filter (\<lambda>p. js_gt (getValue p) (Fin 0)) a1 h1;
               (a3, h3) = arr_sort (\<lambda>a b. js_sub (getValue b) (getValue a)) a2 h2;
               (top, h4) = arr_slice0 n a3 h3
           in if length (h4 ! top) = 0 then (None, h4)
              else (Some \<lparr> TopNRecord.stat = st,
                           TopNRecord.description = descr,
                           TopNRecord.entries = map (entryOf st getValue) (h4 ! top) \<rparr>, h4))"

text \<open>\<open>xs.filter(keep).sort(cmp)[0]\<close> on the store, the shape of every single leader.\<close>

definition leader_st ::
  "('a \<Rightarrow> bool) \<Rightarrow> ('a \<Rightarrow> 'a \<Rightarrow> number) \<Rightarrow> nat \<Rightarrow> 'a heap \<Rightarrow> 'a option \<times> 'a heap" where
  "leader_st keep cmp xs h =
     (let (a1, h1) = arr_filter keep xs h;
          (a2, h2) = arr_sort cmp a1 h1
      in (js_first (h2 ! a2), h2))"

definition topQBEff_st :: "nat \<Rightarrow> CareerPlayer heap \<Rightarrow> CareerPlayer option \<times> CareerPlayer heap" where
  "topQBEff_st qbs h =
     leader_st (\<lambda>p. CareerPlayer.attempts p > 200)
       (\<lambda>a b. js_sub (js_div (Fin (CareerPlayer.passYds b)) (Fin (CareerPlayer.attempts b)))
                      (js_div (Fin (CareerPlayer.passYds a)) (Fin (CareerPlayer.attempts a))))
       qbs h"

section \<open>Example data\<close>

definition player0 :: CareerPlayer where
  "player0 =
     \<lparr> CareerPlayer.name = [], CareerPlayer.team = None, CareerPlayer.position = [],
       CareerPlayer.status = [], CareerPlayer.games = 0, CareerPlayer.passYds = 0,
       CareerPlayer.passTD = 0, CareerPlayer.attempts = 0, CareerPlayer.completions = 0,
       CareerPlayer.interceptions = 0, CareerPlayer.rushYds = 0, CareerPlayer.rushTD = 0,
       CareerPlayer.rushAtt = 0, CareerPlayer.recYds = 0, CareerPlayer.recTD = 0,
       CareerPlayer.receptions = 0, CareerPlayer.tackles = 0, CareerPlayer.sacks = 0,
       CareerPlayer.forcedFumbles = 0, CareerPlayer.rings = 0, CareerPlayer.mvp = 0,
       CareerPlayer.careerLegacy = 0, CareerPlayer.dominance = 0 \<rparr>"

definition league0 :: CareerData where
  "league0 =
     \<lparr> quarterbacks = [], runningbacks = [], widereceivers = [], tightends = [],
       offensiveline = [], linebackers = [], defensivebacks = [], defensiveline = [] \<rparr>"

definition snapshot0 :: SeasonSnapshot where
  "snapshot0 =
     \<lparr> SeasonSnapshot.season = ''Y1'', SeasonSnapshot.passYds = None,
       SeasonSnapshot.passTD = None, SeasonSnapshot.rushYds = None,
       SeasonSnapshot.rushTD = None, SeasonSnapshot.interceptions = None,
       SeasonSnapshot.recYds = None, SeasonSnapshot.recTD = None,
       SeasonSnapshot.receptions = None, SeasonSnapshot.tackles = None,
       SeasonSnapshot.sacks = None, SeasonSnapshot.forcedFumbles = None,
       SeasonSnapshot.mvp = None, SeasonSnapshot.opoy = None, SeasonSnapshot.sbmvp = None,
       SeasonSnapshot.roty = None, SeasonSnapshot.rings = None \<rparr>"

text \<open>A quarterback with the given name, career passing yards, games and status.\<close>

definition qb :: "string \<Rightarrow> real \<Rightarrow> real \<Rightarrow> string \<Rightarrow> CareerPlayer" where
  "qb nm yds gms sts =
     player0 \<lparr> CareerPlayer.name := nm, CareerPlayer.position := ''QB'',
               CareerPlayer.passYds := yds, CareerPlayer.games := gms,
               CareerPlayer.status := sts \<rparr>"

text \<open>Four quarterbacks, one of them without passing yards, and the top two of them.\<close>

definition ex3 :: "CareerPlayer list" where
  "ex3 = [qb ''B'' 200 16 ''Active'', qb ''A'' 300 16 ''Active'', qb ''Z'' 0 16 ''Active'',
          qb ''C'' 100 16 ''Retired'']"

definition ex3_board :: TopNRecord where
  "ex3_board =
     \<lparr> TopNRecord.stat = ''Career Passing Yards'',
       TopNRecord.description = ''Total passing yards'',
       TopNRecord.entries =
         [entryOf ''Career Passing Yards'' qbPassYds_value (qb ''A'' 300 16 ''Active''),
          entryOf ''Career Passing Yards'' qbPassYds_value (qb ''B'' 200 16 ''Active'')] \<rparr>"

text \<open>The quarterback season of the spec's scoring example.\<close>

definition ex_qb_season :: SeasonSnapshot where
  "ex_qb_season =
     snapshot0 \<lparr> SeasonSnapshot.passYds := Some 4000, SeasonSnapshot.passTD := Some 30,
                 SeasonSnapshot.rushYds := Some 200, SeasonSnapshot.rushTD := Some 2,
                 SeasonSnapshot.interceptions := Some 10 \<rparr>"

text \<open>A quarterback with 30 touchdown passes and no interception, and a league of that one player.\<close>

definition qb_clean :: CareerPlayer where
  "qb_clean =
     player0 \<lparr> CareerPlayer.name := ''T'', CareerPlayer.position := ''QB'',
               CareerPlayer.passTD := 30 \<rparr>"

definition league_clean :: CareerData where
  "league_clean = league0 \<lparr> quarterbacks := [qb_clean] \<rparr>"

text \<open>
  Players exactly at the stated minimums: 200 pass attempts, 50 receptions, 32 games.
\<close>

definition qb_200 :: CareerPlayer where
  "qb_200 =
     player0 \<lparr> CareerPlayer.name := ''Q'', CareerPlayer.position := ''QB'',
               CareerPlayer.games := 16, CareerPlayer.passYds := 1600,
               CareerPlayer.attempts := 200 \<rparr>"

definition wr_50 :: CareerPlayer where
  "wr_50 =
     player0 \<lparr> CareerPlayer.name := ''W'', CareerPlayer.position := ''WR'',
               CareerPlayer.games := 16, CareerPlayer.recYds := 700,
               CareerPlayer.receptions := 50 \<rparr>"

definition dl_32 :: CareerPlayer where
  "dl_32 =
     player0 \<lparr> CareerPlayer.name := ''D'', CareerPlayer.position := ''DL'',
               CareerPlayer.games := 32, CareerPlayer.sacks := 10 \<rparr>"

definition league_min :: CareerData where
  "league_min =
     league0 \<lparr> quarterbacks := [qb_200], widereceivers := [wr_50], defensiveline := [dl_32] \<rparr>"

text \<open>
  The spec's wording of a pace record, in real arithmetic: the pace is
  \<open>(statTotal / gamesPlayed) * 16\<close>, the seasons to break are
  \<open>ceil((recordValue - currentValue) / pacePerSeason)\<close> and the percentage is
  \<open>currentValue / recordValue * 100\<close>.
\<close>

definition spec_paceRecord ::
  "(CareerPlayer \<Rightarrow> real) \<Rightarrow> string \<Rightarrow> string \<Rightarrow> real \<Rightarrow> CareerPlayer \<Rightarrow> CareerPlayer
     \<Rightarrow> PaceToRecord" where
  "spec_paceRecord yds pos recName ydsRecord holder pl =
     \<lparr> PaceToRecord.playerName = CareerPlayer.name pl,
       PaceToRecord.position = pos,
       PaceToRecord.team = CareerPlayer.team pl,
       PaceToRecord.recordName = recName,
       PaceToRecord.currentValue = yds pl,
       PaceToRecord.recordValue = ydsRecord,
       PaceToRecord.recordHolder = CareerPlayer.name holder,
       PaceToRecord.seasonsToBreak =
         Fin (of_int \<lceil>(ydsRecord - yds pl) / (yds pl / CareerPlayer.games pl * 16)\<rceil>),
       PaceToRecord.pacePerSeason = Fin (yds pl / CareerPlayer.games pl * 16),
       PaceToRecord.percentToRecord = Fin (yds pl / ydsRecord * 100) \<rparr>"

text \<open>
  The three categories the loops cover: the stat read, the position label, the record
  name and the collection of the career data.
\<close>

definition paceCategories ::
  "((CareerPlayer \<Rightarrow> real) \<times> string \<times> string \<times> (CareerData \<Rightarrow> CareerPlayer list)) list" where
  "paceCategories =
     [(CareerPlayer.passYds, ''QB'', ''Career Passing Yards'', quarterbacks),
      (CareerPlayer.rushYds, ''RB'', ''Career Rushing Yards'', runningbacks),
      (CareerPlayer.recYds, ''WR'', ''Career Receiving Yards'', widereceivers)]"

text \<open>
  The spec's wording of the whole projection for one category: the governing record is
  the largest value held in the category, with its holder; of the active players with
  at least 16 games, a positive pace and a total strictly below the record, those whose
  \<open>seasonsToBreak\<close> is at most 5 get a pace record, in the order of the collection, and
  nobody else does.
\<close>

definition spec_paceRows ::
  "(CareerPlayer \<Rightarrow> real) \<Rightarrow> string \<Rightarrow> string \<Rightarrow> CareerPlayer list \<Rightarrow> PaceToRecord list" where
  "spec_paceRows yds pos recName xs =
     (case List.find (\<lambda>q. yds q = recordOf yds xs) xs of
        None \<Rightarrow> []
      | Some holder \<Rightarrow>
          map (spec_paceRecord yds pos recName (recordOf yds xs) holder)
            (filter (\<lambda>pl. CareerPlayer.status pl = ''Active'' \<and> 16 \<le> CareerPlayer.games pl \<and>
                           0 < yds pl / CareerPlayer.games pl * 16 \<and>
                           yds pl < recordOf yds xs \<and>
                           \<lceil>(recordOf yds xs - yds pl) / (yds pl / CareerPlayer.games pl * 16)\<rceil>
                             \<le> 5) xs))"

definition spec_paceRecords :: "CareerData \<Rightarrow> PaceToRecord list" where
  "spec_paceRecords careerData =
     spec_paceRows CareerPlayer.passYds ''QB'' ''Career Passing Yards'' (quarterbacks careerData) @
     spec_paceRows CareerPlayer.rushYds ''RB'' ''Career Rushing Yards'' (runningbacks careerData) @
     spec_paceRows CareerPlayer.recYds ''WR'' ''Career Receiving Yards''
       (widereceivers careerData)"

text \<open>
  Leagues for the pace cutoff: an active quarterback with 100 yards in 16 games (a pace
  of 100 a season) behind a retired record holder with 600 or with 700 yards; and a
  league with two chasers of a 1000-yard record.
\<close>

definition league_500 :: CareerData where
  "league_500 =
     league0 \<lparr> quarterbacks := [qb ''H'' 600 160 ''Retired'', qb ''P'' 100 16 ''Active''] \<rparr>"

definition league_600 :: CareerData where
  "league_600 =
     league0 \<lparr> quarterbacks := [qb ''H'' 700 160 ''Retired'', qb ''P'' 100 16 ''Active''] \<rparr>"

definition league_chase :: CareerData where
  "league_chase =
     league0 \<lparr> quarterbacks :=
       [qb ''H'' 1000 160 ''Retired'', qb ''B'' 200 16 ''Active'', qb ''A'' 400 16 ''Active''] \<rparr>"

text \<open>
  A history of two quarterbacks: Tom with two recorded seasons, and Rook with a single
  season that is better than both of Tom's.
\<close>

definition tom_y1 :: SeasonSnapshot where
  "tom_y1 = snapshot0 \<lparr> SeasonSnapshot.season := ''Y1'', SeasonSnapshot.passYds := Some 3000 \<rparr>"

definition tom_y2 :: SeasonSnapshot where
  "tom_y2 = ex_qb_season \<lparr> SeasonSnapshot.season := ''Y2'' \<rparr>"

definition rook_y2 :: SeasonSnapshot where
  "rook_y2 =
     snapshot0 \<lparr> SeasonSnapshot.season := ''Y2'', SeasonSnapshot.passYds := Some 5000,
                 SeasonSnapshot.passTD := Some 50 \<rparr>"

definition ex_history :: SeasonHistory where
  "ex_history = [(''QB:Tom'', [tom_y1, tom_y2]), (''QB:Rook'', [rook_y2])]"

text \<open>The single-season passing-yards leaderboard of that history.\<close>

definition ex_season_board :: TopNRecord where
  "ex_season_board =
     \<lparr> TopNRecord.stat = ''Passing Yards'',
       TopNRecord.description = ''Single season'',
       TopNRecord.entries =
         [\<lparr> RecordEntry.stat = ''Passing Yards'', RecordEntry.value = Fin 4000,
            RecordEntry.playerName = ''Tom'', RecordEntry.team = None,
            RecordEntry.position = ''QB'', RecordEntry.season = Some ''Y2'' \<rparr>,
          \<lparr> RecordEntry.stat = ''Passing Yards'', RecordEntry.value = Fin 3000,
            RecordEntry.playerName = ''Tom'', RecordEntry.team = None,
            RecordEntry.position = ''QB'', RecordEntry.season = Some ''Y1'' \<rparr>] \<rparr>"

section \<open>Facts about the array methods\<close>

lemma mset_js_insert: "mset (js_insert cmp x ys) = add_mset x (mset ys)"
  by (induction ys) auto

lemma mset_js_sort: "mset (js_sort cmp xs) = mset xs"
  by (induction xs) (auto simp: mset_js_insert)

lemma set_js_sort: "set (js_sort cmp xs) = set xs"
  using mset_js_sort [of cmp xs] by (metis set_mset_mset)

lemma length_js_sort: "length (js_sort cmp xs) = length xs"
  using mset_js_sort [of cmp xs] by (metis size_mset)

lemma set_js_insert: "set (js_insert cmp x ys) = insert x (set ys)"
  using mset_js_insert [of cmp x ys] by (metis set_mset_mset set_mset_add_mset_insert)

lemma sorted_js_insert:
  assumes tot: "\<And>y. y \<in> set ys \<Longrightarrow> cmp_le0 (cmp x y) \<or> cmp_le0 (cmp y x)"
    and tr: "\<And>a b c. a \<in> insert x (set ys) \<Longrightarrow> b \<in> insert x (set ys) \<Longrightarrow> c \<in> insert x (set ys)
               \<Longrightarrow> cmp_le0 (cmp a b) \<Longrightarrow> cmp_le0 (cmp b c) \<Longrightarrow> cmp_le0 (cmp a c)"
    and srt: "sorted_wrt (\<lambda>a b. cmp_le0 (cmp a b)) ys"
  shows "sorted_wrt (\<lambda>a b. cmp_le0 (cmp a b)) (js_insert cmp x ys)"
  using tot tr srt
proof (induction ys)
  case Nil
  then show ?case by simp
next
  case (Cons y ys)
  show ?case
  proof (cases "cmp_le0 (cmp x y)")
    case True
    have "cmp_le0 (cmp x z)" if "z \<in> set ys" for z
    proof -
      have "cmp_le0 (cmp y z)" using Cons.prems(3) that by simp
      with True show ?thesis using Cons.prems(2) [of x y z] that by simp
    qed
    with True Cons.prems(3) show ?thesis by simp
  next
    case False
    then have yx: "cmp_le0 (cmp y x)" using Cons.prems(1) [of y] by simp
    have "sorted_wrt (\<lambda>a b. cmp_le0 (cmp a b)) (js_insert cmp x ys)"
    proof (rule Cons.IH)
      show "\<And>z. z \<in> set ys \<Longrightarrow> cmp_le0 (cmp x z) \<or> cmp_le0 (cmp z x)"
        using Cons.prems(1) by simp
      show "\<And>a b c. a \<in> insert x (set ys) \<Longrightarrow> b \<in> insert x (set ys) \<Longrightarrow> c \<in> insert x (set ys)
               \<Longrightarrow> cmp_le0 (cmp a b) \<Longrightarrow> cmp_le0 (cmp b c) \<Longrightarrow> cmp_le0 (cmp a c)"
      proof -
        fix a b c
        assume "a \<in> insert x (set ys)" "b \<in> insert x (set ys)" "c \<in> insert x (set ys)"
          "cmp_le0 (cmp a b)" "cmp_le0 (cmp b c)"
        then show "cmp_le0 (cmp a c)" using Cons.prems(2) [of a b c] by auto
      qed
      show "sorted_wrt (\<lambda>a b. cmp_le0 (cmp a b)) ys" using Cons.prems(3) by simp
    qed
    moreover have "\<forall>z \<in> set (js_insert cmp x ys). cmp_le0 (cmp y z)"
      using yx Cons.prems(3) by (simp add: set_js_insert)
    ultimately show ?thesis using False by simp
  qed
qed

lemma sorted_js_sort:
  "(\<forall>a\<in>set xs. \<forall>b\<in>set xs. cmp_le0 (cmp a b) \<or> cmp_le0 (cmp b a)) \<Longrightarrow>
   (\<forall>a\<in>set xs. \<forall>b\<in>set xs. \<forall>c\<in>set xs.
       cmp_le0 (cmp a b) \<longrightarrow> cmp_le0 (cmp b c) \<longrightarrow> cmp_le0 (cmp a c)) \<Longrightarrow>
   sorted_wrt (\<lambda>a b. cmp_le0 (cmp a b)) (js_sort cmp xs)"
proof (induction xs)
  case Nil
  show ?case by simp
next
  case (Cons x xs)
  have tot: "cmp_le0 (cmp a b) \<or> cmp_le0 (cmp b a)"
    if "a \<in> insert x (set xs)" "b \<in> insert x (set xs)" for a b
    using Cons.prems(1) that unfolding list.set by blast
  have tr: "cmp_le0 (cmp a c)"
    if "a \<in> insert x (set xs)" "b \<in> insert x (set xs)" "c \<in> insert x (set xs)"
       "cmp_le0 (cmp a b)" "cmp_le0 (cmp b c)" for a b c
    using Cons.prems(2) that unfolding list.set by blast
  have IH: "sorted_wrt (\<lambda>a b. cmp_le0 (cmp a b)) (js_sort cmp xs)"
  proof (rule Cons.IH)
    show "\<forall>a\<in>set xs. \<forall>b\<in>set xs. cmp_le0 (cmp a b) \<or> cmp_le0 (cmp b a)"
      using tot by blast
    show "\<forall>a\<in>set xs. \<forall>b\<in>set xs. \<forall>c\<in>set xs.
       cmp_le0 (cmp a b) \<longrightarrow> cmp_le0 (cmp b c) \<longrightarrow> cmp_le0 (cmp a c)"
      using tr by blast
  qed
  have "sorted_wrt (\<lambda>a b. cmp_le0 (cmp a b)) (js_insert cmp x (js_sort cmp xs))"
  proof (rule sorted_js_insert [OF _ _ IH])
    show "\<And>y. y \<in> set (js_sort cmp xs) \<Longrightarrow> cmp_le0 (cmp x y) \<or> cmp_le0 (cmp y x)"
      using tot unfolding set_js_sort by blast
    show "\<And>a b c. a \<in> insert x (set (js_sort cmp xs)) \<Longrightarrow> b \<in> insert x (set (js_sort cmp xs))
        \<Longrightarrow> c \<in> insert x (set (js_sort cmp xs))
        \<Longrightarrow> cmp_le0 (cmp a b) \<Longrightarrow> cmp_le0 (cmp b c) \<Longrightarrow> cmp_le0 (cmp a c)"
      using tr unfolding set_js_sort by blast
  qed
  then show ?case by simp
qed

lemma cmp_desc: "x \<noteq> NaN \<Longrightarrow> y \<noteq> NaN \<Longrightarrow> cmp_le0 (js_sub y x) = js_ge x y"
  by (cases x; cases y) (auto simp: js_ge_def js_le_def)

lemma cmp_asc: "x \<noteq> NaN \<Longrightarrow> y \<noteq> NaN \<Longrightarrow> cmp_le0 (js_sub x y) = js_le x y"
  by (cases x; cases y) (auto simp: js_le_def)

lemma js_le_total: "x \<noteq> NaN \<Longrightarrow> y \<noteq> NaN \<Longrightarrow> js_le x y \<or> js_le y x"
  by (cases x; cases y) (auto simp: js_le_def)

lemma js_le_trans: "js_le x y \<Longrightarrow> js_le y z \<Longrightarrow> js_le x z"
  by (cases x; cases y; cases z) (auto simp: js_le_def)

lemma js_gt_not_NaN: "js_gt x y \<Longrightarrow> x \<noteq> NaN"
  by (cases x; cases y) (auto simp: js_gt_def)


lemma sorted_js_sort_desc:
  assumes nn: "\<forall>x\<in>set xs. f x \<noteq> NaN"
  shows "sorted_wrt (\<lambda>a b. js_ge (f a) (f b)) (js_sort (\<lambda>a b. js_sub (f b) (f a)) xs)"
proof -
  let ?cmp = "\<lambda>a b. js_sub (f b) (f a)"
  have eq: "cmp_le0 (?cmp a b) = js_ge (f a) (f b)" if "a \<in> set xs" "b \<in> set xs" for a b
    using nn that by (simp add: cmp_desc)
  have "sorted_wrt (\<lambda>a b. cmp_le0 (?cmp a b)) (js_sort ?cmp xs)"
  proof (rule sorted_js_sort)
    show "\<forall>a\<in>set xs. \<forall>b\<in>set xs. cmp_le0 (?cmp a b) \<or> cmp_le0 (?cmp b a)"
      using nn by (auto simp: eq js_ge_def dest: js_le_total)
    show "\<forall>a\<in>set xs. \<forall>b\<in>set xs. \<forall>c\<in>set xs.
       cmp_le0 (?cmp a b) \<longrightarrow> cmp_le0 (?cmp b c) \<longrightarrow> cmp_le0 (?cmp a c)"
      by (auto simp: eq js_ge_def intro: js_le_trans)
  qed
  then show ?thesis
    by (rule sorted_wrt_mono_rel [rotated]) (simp add: set_js_sort eq)
qed

lemma sorted_js_sort_asc:
  assumes nn: "\<forall>x\<in>set xs. f x \<noteq> NaN"
  shows "sorted_wrt (\<lambda>a b. js_le (f a) (f b)) (js_sort (\<lambda>a b. js_sub (f a) (f b)) xs)"
proof -
  let ?cmp = "\<lambda>a b. js_sub (f a) (f b)"
  have eq: "cmp_le0 (?cmp a b) = js_le (f a) (f b)" if "a \<in> set xs" "b \<in> set xs" for a b
    using nn that by (simp add: cmp_asc)
  have "sorted_wrt (\<lambda>a b. cmp_le0 (?cmp a b)) (js_sort ?cmp xs)"
  proof (rule sorted_js_sort)
    show "\<forall>a\<in>set xs. \<forall>b\<in>set xs. cmp_le0 (?cmp a b) \<or> cmp_le0 (?cmp b a)"
      using nn by (auto simp: eq dest: js_le_total)
    show "\<forall>a\<in>set xs. \<forall>b\<in>set xs. \<forall>c\<in>set xs.
       cmp_le0 (?cmp a b) \<longrightarrow> cmp_le0 (?cmp b c) \<longrightarrow> cmp_le0 (?cmp a c)"
      by (auto simp: eq intro: js_le_trans)
  qed
  then show ?thesis
    by (rule sorted_wrt_mono_rel [rotated]) (simp add: set_js_sort eq)
qed

lemma length_js_slice0: "0 \<le> n \<Longrightarrow> int (length (js_slice0 n xs)) \<le> n"
  by (simp add: js_slice0_def)

lemma set_js_slice0: "set (js_slice0 n xs) \<subseteq> set xs"
  by (simp add: js_slice0_def set_take_subset)

lemma sorted_wrt_js_slice0: "sorted_wrt R xs \<Longrightarrow> sorted_wrt R (js_slice0 n xs)"
  by (simp add: js_slice0_def sorted_wrt_take)

lemma findTopN_sorted_positive:
  "p \<in> set (findTopN_sorted players f n) \<Longrightarrow> p \<in> set players \<and> js_gt (f p) (Fin 0)"
  using set_js_slice0 [of n "js_sort (\<lambda>a b. js_sub (f b) (f a)) (filter (\<lambda>p. js_gt (f p) (Fin 0)) players)"]
  by (auto simp: findTopN_sorted_def set_js_sort)

lemma findTopN_sorted_desc:
  "sorted_wrt (\<lambda>a b. js_ge (f a) (f b)) (findTopN_sorted players f n)"
  unfolding findTopN_sorted_def
  by (rule sorted_wrt_js_slice0, rule sorted_js_sort_desc) (auto dest: js_gt_not_NaN)

lemma findTopN_sorted_length: "0 \<le> n \<Longrightarrow> int (length (findTopN_sorted players f n)) \<le> n"
  by (simp add: findTopN_sorted_def length_js_slice0)

lemma findTopN_Some:
  "findTopN players f st descr n = Some r \<Longrightarrow>
     map RecordEntry.value (TopNRecord.entries r) = map f (findTopN_sorted players f n)
     \<and> findTopN_sorted players f n \<noteq> []"
  by (auto simp: findTopN_def Let_def entryOf_def comp_def split: if_splits)

lemma findTopN_no_positive:
  "\<forall>p\<in>set players. \<not> js_gt (f p) (Fin 0) \<Longrightarrow> findTopN players f st descr n = None"
proof -
  assume "\<forall>p\<in>set players. \<not> js_gt (f p) (Fin 0)"
  then have "findTopN_sorted players f n = []"
    using findTopN_sorted_positive [of _ players f n] by (cases "findTopN_sorted players f n") auto
  then show ?thesis by (simp add: findTopN_def)
qed

section \<open>The leaderboard primitive\<close>

text \<open>
  Claim C1. For every player list, value function and bound \<open>n\<close> (a count, so not
  negative), a leaderboard returned by \<open>findTopN\<close> has at most \<open>n\<close> entries, is sorted
  so that the value of entry \<open>i\<close> is at least the value of entry \<open>j\<close> whenever \<open>i < j\<close>,
  and every entry has a value strictly greater than 0; and when no player has a positive
  value the result is absent (\<open>None\<close>), not an error.
\<close>

theorem findTopN_leaderboard:
  "(\<forall>r. findTopN players f st descr n = Some r \<longrightarrow>
       (0 \<le> n \<longrightarrow> int (length (TopNRecord.entries r)) \<le> n) \<and>
       (\<forall>i j. i < j \<and> j < length (TopNRecord.entries r) \<longrightarrow>
          js_ge (RecordEntry.value (TopNRecord.entries r ! i))
                (RecordEntry.value (TopNRecord.entries r ! j))) \<and>
       (\<forall>e \<in> set (TopNRecord.entries r). js_gt (RecordEntry.value e) (Fin 0))) \<and>
   ((\<forall>p\<in>set players. \<not> js_gt (f p) (Fin 0)) \<longrightarrow> findTopN players f st descr n = None)"
proof -
  let ?top = "findTopN_sorted players f n"
  have vals: "map RecordEntry.value (TopNRecord.entries r) = map f ?top"
    if "findTopN players f st descr n = Some r" for r
    using findTopN_Some [OF that] by simp
  have len: "length (TopNRecord.entries r) = length ?top"
    if "findTopN players f st descr n = Some r" for r
    using vals [OF that] by (metis length_map)
  have A: "int (length (TopNRecord.entries r)) \<le> n"
    if "findTopN players f st descr n = Some r" "0 \<le> n" for r
    using findTopN_sorted_length [of n players f] len [OF that(1)] that(2) by simp
  have "sorted_wrt js_ge (map f ?top)"
    using findTopN_sorted_desc [of f players n] by (simp add: sorted_wrt_map)
  then have srt: "sorted_wrt js_ge (map RecordEntry.value (TopNRecord.entries r))"
    if "findTopN players f st descr n = Some r" for r
    using vals [OF that] by simp
  have B: "js_ge (RecordEntry.value (TopNRecord.entries r ! i))
                 (RecordEntry.value (TopNRecord.entries r ! j))"
    if "findTopN players f st descr n = Some r" "i < j \<and> j < length (TopNRecord.entries r)"
    for r i j
    using srt [OF that(1)] that(2) by (simp add: sorted_wrt_map sorted_wrt_iff_nth_less)
  have C: "js_gt (RecordEntry.value e) (Fin 0)"
    if "findTopN players f st descr n = Some r" "e \<in> set (TopNRecord.entries r)" for r e
  proof -
    have "RecordEntry.value e \<in> set (map f ?top)"
      using vals [OF that(1)] that(2) by (metis image_eqI list.set_map)
    then show ?thesis
      using findTopN_sorted_positive [of _ players f n] by auto
  qed
  have D: "findTopN players f st descr n = None"
    if "\<forall>p\<in>set players. \<not> js_gt (f p) (Fin 0)"
    using that by (rule findTopN_no_positive)
  show ?thesis
    using A B C D by (intro conjI allI impI ballI)
qed


lemma ex3_top2:
  "findTopN ex3 qbPassYds_value ''Career Passing Yards'' ''Total passing yards'' 2 =
     Some ex3_board"
  by (simp add: findTopN_def findTopN_sorted_def js_slice0_def ex3_def ex3_board_def qb_def
        player0_def js_gt_def qbPassYds_value_def)

theorem findTopN_leaderboard_witness:
  "findTopN ex3 qbPassYds_value ''Career Passing Yards'' ''Total passing yards'' 2 =
     Some ex3_board \<and>
   (0::int) \<le> 2 \<and> int (length (TopNRecord.entries ex3_board)) \<le> 2 \<and>
   (0::nat) < 1 \<and> 1 < length (TopNRecord.entries ex3_board) \<and>
   js_ge (RecordEntry.value (TopNRecord.entries ex3_board ! 0))
         (RecordEntry.value (TopNRecord.entries ex3_board ! 1)) \<and>
   TopNRecord.entries ex3_board ! 0 \<in> set (TopNRecord.entries ex3_board) \<and>
   js_gt (RecordEntry.value (TopNRecord.entries ex3_board ! 0)) (Fin 0) \<and>
   \<not> js_gt (qbPassYds_value (qb ''Z'' 0 16 ''Active'')) (Fin 0) \<and>
   findTopN [qb ''Z'' 0 16 ''Active''] qbPassYds_value ''Career Passing Yards''
     ''Total passing yards'' 5 = None"
proof -
  note top = findTopN_leaderboard
    [of ex3 qbPassYds_value "''Career Passing Yards''" "''Total passing yards''" 2]
  note none = findTopN_leaderboard
    [of "[qb ''Z'' 0 16 ''Active'']" qbPassYds_value "''Career Passing Yards''"
        "''Total passing yards''" 5]
  have len: "(0::nat) < 1 \<and> 1 < length (TopNRecord.entries ex3_board)"
    by (simp add: ex3_board_def)
  have mem: "TopNRecord.entries ex3_board ! 0 \<in> set (TopNRecord.entries ex3_board)"
    by (simp add: ex3_board_def)
  have zero: "\<not> js_gt (qbPassYds_value (qb ''Z'' 0 16 ''Active'')) (Fin 0)"
    by (simp add: qb_def player0_def js_gt_def qbPassYds_value_def)
  from top ex3_top2 have
    "int (length (TopNRecord.entries ex3_board)) \<le> 2"
    "js_ge (RecordEntry.value (TopNRecord.entries ex3_board ! 0))
           (RecordEntry.value (TopNRecord.entries ex3_board ! 1))"
    "js_gt (RecordEntry.value (TopNRecord.entries ex3_board ! 0)) (Fin 0)"
    using len mem by auto
  moreover from none zero have
    "findTopN [qb ''Z'' 0 16 ''Active''] qbPassYds_value ''Career Passing Yards''
       ''Total passing yards'' 5 = None"
    by simp
  ultimately show ?thesis using ex3_top2 len mem zero by simp
qed

text \<open>
  The bound is passed on to \<open>slice\<close>, which reads a negative end from the back of the
  array; every call of the source passes 5.
\<close>

lemma findTopN_negative_end_example:
  "findTopN ex3 qbPassYds_value ''Career Passing Yards'' ''Total passing yards'' (- 1) \<noteq> None \<and>
   \<not> int (length (TopNRecord.entries (the
        (findTopN ex3 qbPassYds_value ''Career Passing Yards'' ''Total passing yards'' (- 1)))))
      \<le> - 1"
  by (simp add: findTopN_def findTopN_sorted_def js_slice0_def ex3_def qb_def player0_def
        js_gt_def qbPassYds_value_def)

section \<open>Guarded ratios\<close>

lemma findTopN_entries:
  "findTopN players f st descr n = Some r \<Longrightarrow>
     TopNRecord.entries r = map (entryOf st f) (findTopN_sorted players f n)"
  by (auto simp: findTopN_def Let_def split: if_splits)

lemma zero_value_not_listed:
  assumes "f p = Fin 0"
  shows "p \<notin> set (findTopN_sorted players f n)"
    and "findTopN players f st descr n = Some r \<Longrightarrow> entryOf st f p \<notin> set (TopNRecord.entries r)"
proof -
  have np: "\<not> js_gt (f p) (Fin 0)" using assms by (simp add: js_gt_def)
  then show "p \<notin> set (findTopN_sorted players f n)"
    using findTopN_sorted_positive [of p players f n] by blast
  assume r: "findTopN players f st descr n = Some r"
  show "entryOf st f p \<notin> set (TopNRecord.entries r)"
  proof
    assume "entryOf st f p \<in> set (TopNRecord.entries r)"
    then obtain q where q: "q \<in> set (findTopN_sorted players f n)" "entryOf st f q = entryOf st f p"
      using findTopN_entries [OF r] by auto
    from q(2) have "f q = f p" by (simp add: entryOf_def)
    moreover have "js_gt (f q) (Fin 0)" using findTopN_sorted_positive [OF q(1)] by simp
    ultimately show False using np by simp
  qed
qed

lemma js_first_Some: "js_first xs = Some p \<Longrightarrow> p \<in> set xs"
  by (cases xs) auto

lemma leader_kept:
  "js_first (js_sort cmp (filter keep xs)) = Some p \<Longrightarrow> p \<in> set xs \<and> keep p"
  using js_first_Some [of "js_sort cmp (filter keep xs)" p] by (simp add: set_js_sort)

lemma ratio_values_finite:
  "\<exists>v. qbYPA_value p = Fin v" "\<exists>v. qbTDINT_value p = Fin v" "\<exists>v. rbYPC_value p = Fin v"
  "\<exists>v. rbYPG_value p = Fin v" "\<exists>v. wrYPR_value p = Fin v" "\<exists>v. wrTDPG_value p = Fin v"
  "\<exists>v. defTPG_value p = Fin v"
  by (simp_all add: qbYPA_value_def qbTDINT_value_def rbYPC_value_def rbYPG_value_def
        wrYPR_value_def wrTDPG_value_def defTPG_value_def)

text \<open>
  Claim C2, as amended. For every player and each ratio metric other than TD/INT (yards
  per attempt, yards per carry, yards per reception, running-back yards per game,
  touchdowns per 16 games, tackles per game), a denominator of 0 makes the ratio value
  exactly 0, and the player is then neither among the players \<open>findTopN\<close> selects for
  that metric nor has an entry on the leaderboard. For TD/INT a quarterback without
  interceptions gets the value \<open>passTD\<close>. Every one of the seven ratio values is a finite
  number, never \<open>NaN\<close> or an infinity. A player whose denominator is 0 is never the single
  leader of a metric with that denominator, best TD/INT ratio included.
\<close>

theorem ratio_guard:
  "(CareerPlayer.attempts p = 0 \<longrightarrow>
      qbYPA_value p = Fin 0 \<and> p \<notin> set (findTopN_sorted players qbYPA_value n) \<and>
      (\<forall>r. findTopN players qbYPA_value st descr n = Some r \<longrightarrow>
           entryOf st qbYPA_value p \<notin> set (TopNRecord.entries r)) \<and>
      topQBEff players \<noteq> Some p \<and> topCompPct players \<noteq> Some p) \<and>
   (CareerPlayer.rushAtt p = 0 \<longrightarrow>
      rbYPC_value p = Fin 0 \<and> p \<notin> set (findTopN_sorted players rbYPC_value n) \<and>
      (\<forall>r. findTopN players rbYPC_value st descr n = Some r \<longrightarrow>
           entryOf st rbYPC_value p \<notin> set (TopNRecord.entries r)) \<and>
      topYPC players \<noteq> Some p) \<and>
   (CareerPlayer.receptions p = 0 \<longrightarrow>
      wrYPR_value p = Fin 0 \<and> p \<notin> set (findTopN_sorted players wrYPR_value n) \<and>
      (\<forall>r. findTopN players wrYPR_value st descr n = Some r \<longrightarrow>
           entryOf st wrYPR_value p \<notin> set (TopNRecord.entries r)) \<and>
      topYPR players \<noteq> Some p) \<and>
   (CareerPlayer.games p = 0 \<longrightarrow>
      rbYPG_value p = Fin 0 \<and> wrTDPG_value p = Fin 0 \<and> defTPG_value p = Fin 0 \<and>
      p \<notin> set (findTopN_sorted players rbYPG_value n) \<and>
      p \<notin> set (findTopN_sorted players wrTDPG_value n) \<and>
      p \<notin> set (findTopN_sorted players defTPG_value n) \<and>
      (\<forall>r. findTopN players rbYPG_value st descr n = Some r \<longrightarrow>
           entryOf st rbYPG_value p \<notin> set (TopNRecord.entries r)) \<and>
      (\<forall>r. findTopN players wrTDPG_value st descr n = Some r \<longrightarrow>
           entryOf st wrTDPG_value p \<notin> set (TopNRecord.entries r)) \<and>
      (\<forall>r. findTopN players defTPG_value st descr n = Some r \<longrightarrow>
           entryOf st defTPG_value p \<notin> set (TopNRecord.entries r)) \<and>
      topScrimmageYPG players \<noteq> Some p \<and> topRecYPG players \<noteq> Some p \<and>
      topSackRate players \<noteq> Some p \<and> topBallHawk players \<noteq> Some p) \<and>
   (CareerPlayer.interceptions p = 0 \<longrightarrow>
      qbTDINT_value p = Fin (CareerPlayer.passTD p) \<and> topTDINT players \<noteq> Some p) \<and>
   (\<exists>v. qbYPA_value p = Fin v) \<and> (\<exists>v. qbTDINT_value p = Fin v) \<and>
   (\<exists>v. rbYPC_value p = Fin v) \<and> (\<exists>v. rbYPG_value p = Fin v) \<and>
   (\<exists>v. wrYPR_value p = Fin v) \<and> (\<exists>v. wrTDPG_value p = Fin v) \<and>
   (\<exists>v. defTPG_value p = Fin v)"
proof -
  have att: "qbYPA_value p = Fin 0" "topQBEff players \<noteq> Some p" "topCompPct players \<noteq> Some p"
    if "CareerPlayer.attempts p = 0"
    using that leader_kept [of _ "\<lambda>p. CareerPlayer.attempts p > 200" players p]
    by (auto simp: qbYPA_value_def topQBEff_def topCompPct_def)
  have rush: "rbYPC_value p = Fin 0" "topYPC players \<noteq> Some p"
    if "CareerPlayer.rushAtt p = 0"
    using that leader_kept [of _ "\<lambda>p. CareerPlayer.rushAtt p > 100" players p]
    by (auto simp: rbYPC_value_def topYPC_def)
  have rec: "wrYPR_value p = Fin 0" "topYPR players \<noteq> Some p"
    if "CareerPlayer.receptions p = 0"
    using that leader_kept [of _ "\<lambda>p. CareerPlayer.receptions p > 50" players p]
    by (auto simp: wrYPR_value_def topYPR_def)
  have gm: "rbYPG_value p = Fin 0" "wrTDPG_value p = Fin 0" "defTPG_value p = Fin 0"
    "topScrimmageYPG players \<noteq> Some p" "topRecYPG players \<noteq> Some p"
    "topSackRate players \<noteq> Some p" "topBallHawk players \<noteq> Some p"
    if "CareerPlayer.games p = 0"
    using that leader_kept [of _ "\<lambda>p. CareerPlayer.games p > 16" players p]
      leader_kept [of _ "\<lambda>p. CareerPlayer.games p > 32" players p]
    by (auto simp: rbYPG_value_def wrTDPG_value_def defTPG_value_def topScrimmageYPG_def
          topRecYPG_def topSackRate_def topBallHawk_def)
  have int: "qbTDINT_value p = Fin (CareerPlayer.passTD p)" "topTDINT players \<noteq> Some p"
    if "CareerPlayer.interceptions p = 0"
    using that leader_kept [of _ "\<lambda>p. CareerPlayer.interceptions p > 0" players p]
    by (auto simp: qbTDINT_value_def topTDINT_def)
  have nl: "p \<notin> set (findTopN_sorted players f n)"
    "\<forall>r. findTopN players f st descr n = Some r \<longrightarrow>
       entryOf st f p \<notin> set (TopNRecord.entries r)"
    if "f p = Fin 0" for f
  proof -
    show "p \<notin> set (findTopN_sorted players f n)"
      using that by (rule zero_value_not_listed(1))
    show "\<forall>r. findTopN players f st descr n = Some r \<longrightarrow>
       entryOf st f p \<notin> set (TopNRecord.entries r)"
      using zero_value_not_listed(2) [of f p players st descr n, OF that] by simp
  qed
  have A: "CareerPlayer.attempts p = 0 \<longrightarrow>
      qbYPA_value p = Fin 0 \<and> p \<notin> set (findTopN_sorted players qbYPA_value n) \<and>
      (\<forall>r. findTopN players qbYPA_value st descr n = Some r \<longrightarrow>
           entryOf st qbYPA_value p \<notin> set (TopNRecord.entries r)) \<and>
      topQBEff players \<noteq> Some p \<and> topCompPct players \<noteq> Some p"
  proof
    assume h: "CareerPlayer.attempts p = 0"
    show "qbYPA_value p = Fin 0 \<and> p \<notin> set (findTopN_sorted players qbYPA_value n) \<and>
      (\<forall>r. findTopN players qbYPA_value st descr n = Some r \<longrightarrow>
           entryOf st qbYPA_value p \<notin> set (TopNRecord.entries r)) \<and>
      topQBEff players \<noteq> Some p \<and> topCompPct players \<noteq> Some p"
      using att [OF h] nl [of qbYPA_value, OF att(1) [OF h]] by (intro conjI)
  qed
  have B: "CareerPlayer.rushAtt p = 0 \<longrightarrow>
      rbYPC_value p = Fin 0 \<and> p \<notin> set (findTopN_sorted players rbYPC_value n) \<and>
      (\<forall>r. findTopN players rbYPC_value st descr n = Some r \<longrightarrow>
           entryOf st rbYPC_value p \<notin> set (TopNRecord.entries r)) \<and>
      topYPC players \<noteq> Some p"
  proof
    assume h: "CareerPlayer.rushAtt p = 0"
    show "rbYPC_value p = Fin 0 \<and> p \<notin> set (findTopN_sorted players rbYPC_value n) \<and>
      (\<forall>r. findTopN players rbYPC_value st descr n = Some r \<longrightarrow>
           entryOf st rbYPC_value p \<notin> set (TopNRecord.entries r)) \<and>
      topYPC players \<noteq> Some p"
      using rush [OF h] nl [of rbYPC_value, OF rush(1) [OF h]] by (intro conjI)
  qed
  have C: "CareerPlayer.receptions p = 0 \<longrightarrow>
      wrYPR_value p = Fin 0 \<and> p \<notin> set (findTopN_sorted players wrYPR_value n) \<and>
      (\<forall>r. findTopN players wrYPR_value st descr n = Some r \<longrightarrow>
           entryOf st wrYPR_value p \<notin> set (TopNRecord.entries r)) \<and>
      topYPR players \<noteq> Some p"
  proof
    assume h: "CareerPlayer.receptions p = 0"
    show "wrYPR_value p = Fin 0 \<and> p \<notin> set (findTopN_sorted players wrYPR_value n) \<and>
      (\<forall>r. findTopN players wrYPR_value st descr n = Some r \<longrightarrow>
           entryOf st wrYPR_value p \<notin> set (TopNRecord.entries r)) \<and>
      topYPR players \<noteq> Some p"
      using rec [OF h] nl [of wrYPR_value, OF rec(1) [OF h]] by (intro conjI)
  qed
  have D: "CareerPlayer.games p = 0 \<longrightarrow>
      rbYPG_value p = Fin 0 \<and> wrTDPG_value p = Fin 0 \<and> defTPG_value p = Fin 0 \<and>
      p \<notin> set (findTopN_sorted players rbYPG_value n) \<and>
      p \<notin> set (findTopN_sorted players wrTDPG_value n) \<and>
      p \<notin> set (findTopN_sorted players defTPG_value n) \<and>
      (\<forall>r. findTopN players rbYPG_value st descr n = Some r \<longrightarrow>
           entryOf st rbYPG_value p \<notin> set (TopNRecord.entries r)) \<and>
      (\<forall>r. findTopN players wrTDPG_value st descr n = Some r \<longrightarrow>
           entryOf st wrTDPG_value p \<notin> set (TopNRecord.entries r)) \<and>
      (\<forall>r. findTopN players defTPG_value st descr n = Some r \<longrightarrow>
           entryOf st defTPG_value p \<notin> set (TopNRecord.entries r)) \<and>
      topScrimmageYPG players \<noteq> Some p \<and> topRecYPG players \<noteq> Some p \<and>
      topSackRate players \<noteq> Some p \<and> topBallHawk players \<noteq> Some p"
  proof
    assume h: "CareerPlayer.games p = 0"
    show "rbYPG_value p = Fin 0 \<and> wrTDPG_value p = Fin 0 \<and> defTPG_value p = Fin 0 \<and>
      p \<notin> set (findTopN_sorted players rbYPG_value n) \<and>
      p \<notin> set (findTopN_sorted players wrTDPG_value n) \<and>
      p \<notin> set (findTopN_sorted players defTPG_value n) \<and>
      (\<forall>r. findTopN players rbYPG_value st descr n = Some r \<longrightarrow>
           entryOf st rbYPG_value p \<notin> set (TopNRecord.entries r)) \<and>
      (\<forall>r. findTopN players wrTDPG_value st descr n = Some r \<longrightarrow>
           entryOf st wrTDPG_value p \<notin> set (TopNRecord.entries r)) \<and>
      (\<forall>r. findTopN players defTPG_value st descr n = Some r \<longrightarrow>
           entryOf st defTPG_value p \<notin> set (TopNRecord.entries r)) \<and>
      topScrimmageYPG players \<noteq> Some p \<and> topRecYPG players \<noteq> Some p \<and>
      topSackRate players \<noteq> Some p \<and> topBallHawk players \<noteq> Some p"
      using gm [OF h] nl [of rbYPG_value, OF gm(1) [OF h]] nl [of wrTDPG_value, OF gm(2) [OF h]]
        nl [of defTPG_value, OF gm(3) [OF h]]
      by (intro conjI)
  qed
  have E: "CareerPlayer.interceptions p = 0 \<longrightarrow>
      qbTDINT_value p = Fin (CareerPlayer.passTD p) \<and> topTDINT players \<noteq> Some p"
    using int by simp
  show ?thesis
    using A B C D E ratio_values_finite [of p] by (intro conjI)
qed

theorem ratio_guard_witness:
  "CareerPlayer.attempts qb_clean = 0 \<and> qbYPA_value qb_clean = Fin 0 \<and>
   qb_clean \<notin> set (findTopN_sorted [qb_clean, qb_200] qbYPA_value 5) \<and>
   findTopN [qb_clean, qb_200] qbYPA_value ''Yards Per Attempt'' ''Pass efficiency'' 5 \<noteq> None \<and>
   entryOf ''Yards Per Attempt'' qbYPA_value qb_clean \<notin>
     set (TopNRecord.entries (the
       (findTopN [qb_clean, qb_200] qbYPA_value ''Yards Per Attempt'' ''Pass efficiency'' 5))) \<and>
   topQBEff [qb_clean, qb_200] \<noteq> Some qb_clean \<and>
   CareerPlayer.rushAtt qb_clean = 0 \<and> rbYPC_value qb_clean = Fin 0 \<and>
   CareerPlayer.receptions qb_clean = 0 \<and> wrYPR_value qb_clean = Fin 0 \<and>
   CareerPlayer.games qb_clean = 0 \<and> rbYPG_value qb_clean = Fin 0 \<and>
   wrTDPG_value qb_clean = Fin 0 \<and> defTPG_value qb_clean = Fin 0 \<and>
   CareerPlayer.interceptions qb_clean = 0 \<and> qbTDINT_value qb_clean = Fin 30 \<and>
   topTDINT [qb_clean, qb_200] \<noteq> Some qb_clean"
proof -
  note g = ratio_guard [of qb_clean "[qb_clean, qb_200]" 5 "''Yards Per Attempt''"
    "''Pass efficiency''"]
  have d: "CareerPlayer.attempts qb_clean = 0" "CareerPlayer.rushAtt qb_clean = 0"
    "CareerPlayer.receptions qb_clean = 0" "CareerPlayer.games qb_clean = 0"
    "CareerPlayer.interceptions qb_clean = 0" "CareerPlayer.passTD qb_clean = 30"
    by (simp_all add: qb_clean_def player0_def)
  have ne: "findTopN [qb_clean, qb_200] qbYPA_value ''Yards Per Attempt'' ''Pass efficiency'' 5
      \<noteq> None"
    by (simp add: findTopN_def findTopN_sorted_def js_slice0_def qb_clean_def qb_200_def
          player0_def js_gt_def qbYPA_value_def)
  then obtain R where R:
    "findTopN [qb_clean, qb_200] qbYPA_value ''Yards Per Attempt'' ''Pass efficiency'' 5 = Some R"
    by auto
  from g d(1) R have "entryOf ''Yards Per Attempt'' qbYPA_value qb_clean \<notin> set (TopNRecord.entries R)"
    by blast
  with R have e: "entryOf ''Yards Per Attempt'' qbYPA_value qb_clean \<notin>
     set (TopNRecord.entries (the
       (findTopN [qb_clean, qb_200] qbYPA_value ''Yards Per Attempt'' ''Pass efficiency'' 5)))"
    by simp
  from g d have
    "qbYPA_value qb_clean = Fin 0"
    "qb_clean \<notin> set (findTopN_sorted [qb_clean, qb_200] qbYPA_value 5)"
    "topQBEff [qb_clean, qb_200] \<noteq> Some qb_clean"
    "rbYPC_value qb_clean = Fin 0" "wrYPR_value qb_clean = Fin 0"
    "rbYPG_value qb_clean = Fin 0" "wrTDPG_value qb_clean = Fin 0"
    "defTPG_value qb_clean = Fin 0" "qbTDINT_value qb_clean = Fin 30"
    "topTDINT [qb_clean, qb_200] \<noteq> Some qb_clean"
    by simp_all
  with d ne e show ?thesis by (intro conjI)
qed

theorem ratio_guard_TDINT_counterexample:
  "CareerPlayer.interceptions qb_clean = 0 \<and>
   qbTDINT_value qb_clean = Fin 30 \<and>
   qbTDINT_value qb_clean \<noteq> Fin 0 \<and>
   records_qbTDINT league_clean =
     Some \<lparr> TopNRecord.stat = ''TD/INT Ratio'', TopNRecord.description = ''Decision making'',
            TopNRecord.entries = [entryOf ''TD/INT Ratio'' qbTDINT_value qb_clean] \<rparr>"
  by (simp add: records_qbTDINT_def league_clean_def league0_def findTopN_def
        findTopN_sorted_def js_slice0_def qb_clean_def player0_def js_gt_def qbTDINT_value_def)

section \<open>Minimum samples of the single leaders\<close>

lemma single_leader_thresholds:
  "topQBEff xs = Some p \<Longrightarrow> CareerPlayer.attempts p > 200"
  "topCompPct xs = Some p \<Longrightarrow> CareerPlayer.attempts p > 200"
  "topTDINT xs = Some p \<Longrightarrow> CareerPlayer.interceptions p > 0"
  "topYPC xs = Some p \<Longrightarrow> CareerPlayer.rushAtt p > 100"
  "topScrimmageYPG xs = Some p \<Longrightarrow> CareerPlayer.games p > 16"
  "topYPR xs = Some p \<Longrightarrow> CareerPlayer.receptions p > 50"
  "topRecYPG xs = Some p \<Longrightarrow> CareerPlayer.games p > 16"
  "topSackRate xs = Some p \<Longrightarrow> CareerPlayer.games p > 32"
  "topBallHawk xs = Some p \<Longrightarrow> CareerPlayer.games p > 32"
  unfolding topQBEff_def topCompPct_def topTDINT_def topYPC_def topScrimmageYPG_def
    topYPR_def topRecYPG_def topSackRate_def topBallHawk_def
  by (drule leader_kept, simp)+

text \<open>
  Claim C3. The filters of the single leaders are strict (\<open>attempts > 200\<close>,
  \<open>receptions > 50\<close>, \<open>games > 32\<close>): a quarterback with exactly 200 attempts, a receiver
  with exactly 50 receptions and a defender with exactly 32 games are not considered, and
  a league made of the three reports no advanced metric at all, although the descriptions
  of the metrics say "min 200 attempts", "min 50 catches" and "min 32 games".
\<close>

theorem exact_minimum_not_eligible:
  "CareerPlayer.attempts qb_200 = 200 \<and> topQBEff [qb_200] = None \<and>
   CareerPlayer.receptions wr_50 = 50 \<and> topYPR [wr_50] = None \<and>
   CareerPlayer.games dl_32 = 32 \<and> topSackRate [dl_32] = None \<and> topBallHawk [dl_32] = None \<and>
   advancedMetrics league_min = []"
  by (simp add: advancedMetrics_def league_min_def league0_def allDef_def
        topQBEff_def topTDINT_def topCompPct_def topYPC_def topScrimmageYPG_def topYPR_def
        topRecYPG_def topSackRate_def topBallHawk_def qb_200_def wr_50_def dl_32_def player0_def)

section \<open>Season score and tier\<close>

text \<open>
  Claim C5. The tier of a season score has inclusive lower bounds: a score of at least
  800 is LEGENDARY, from 600 and below 800 ELITE, from 400 and below 600 GREAT, from 250
  and below 400 NOTABLE, and below 250 SOLID; exactly 800 is LEGENDARY and 799.999 is ELITE.
\<close>

theorem getSeasonTier_thresholds:
  "(800 \<le> s \<longrightarrow> Tier.label (getSeasonTier s) = ''LEGENDARY'') \<and>
   (600 \<le> s \<and> s < 800 \<longrightarrow> Tier.label (getSeasonTier s) = ''ELITE'') \<and>
   (400 \<le> s \<and> s < 600 \<longrightarrow> Tier.label (getSeasonTier s) = ''GREAT'') \<and>
   (250 \<le> s \<and> s < 400 \<longrightarrow> Tier.label (getSeasonTier s) = ''NOTABLE'') \<and>
   (s < 250 \<longrightarrow> Tier.label (getSeasonTier s) = ''SOLID'') \<and>
   Tier.label (getSeasonTier 800) = ''LEGENDARY'' \<and>
   Tier.label (getSeasonTier 799.999) = ''ELITE''"
  by (simp add: getSeasonTier_def)

theorem getSeasonTier_thresholds_witness:
  "(800::real) \<le> 950 \<and> Tier.label (getSeasonTier 950) = ''LEGENDARY'' \<and>
   (600::real) \<le> 600 \<and> (600::real) < 800 \<and> Tier.label (getSeasonTier 600) = ''ELITE'' \<and>
   (400::real) \<le> 400 \<and> (400::real) < 600 \<and> Tier.label (getSeasonTier 400) = ''GREAT'' \<and>
   (250::real) \<le> 250 \<and> (250::real) < 400 \<and> Tier.label (getSeasonTier 250) = ''NOTABLE'' \<and>
   (249::real) < 250 \<and> Tier.label (getSeasonTier 249) = ''SOLID''"
  using getSeasonTier_thresholds [of 950] getSeasonTier_thresholds [of 600]
    getSeasonTier_thresholds [of 400] getSeasonTier_thresholds [of 250]
    getSeasonTier_thresholds [of 249]
  by simp

text \<open>
  Claim C6, as amended. The score of a quarterback season is
  \<open>passYds/50 + passTD*10 + rushYds/20 + rushTD*15 - interceptions*5 + awardBonus\<close> with
  \<open>awardBonus = mvp*100 + opoy*75 + sbmvp*80 + roty*50 + rings*60\<close>, absent fields counting
  as 0; the season with 4000 passing yards, 30 passing touchdowns, 200 rushing yards, 2
  rushing touchdowns, 10 interceptions and no award scores exactly 370, and 370 is in
  tier NOTABLE.
\<close>

theorem calculateSeasonScore_QB:
  "calculateSeasonScore s ''QB'' =
     or0 (SeasonSnapshot.passYds s) / 50 + or0 (SeasonSnapshot.passTD s) * 10 +
     or0 (SeasonSnapshot.rushYds s) / 20 + or0 (SeasonSnapshot.rushTD s) * 15 -
     or0 (SeasonSnapshot.interceptions s) * 5 +
     (or0 (SeasonSnapshot.mvp s) * 100 + or0 (SeasonSnapshot.opoy s) * 75 +
      or0 (SeasonSnapshot.sbmvp s) * 80 + or0 (SeasonSnapshot.roty s) * 50 +
      or0 (SeasonSnapshot.rings s) * 60) \<and>
   calculateSeasonScore ex_qb_season ''QB'' = 370 \<and>
   Tier.label (getSeasonTier (calculateSeasonScore ex_qb_season ''QB'')) = ''NOTABLE''"
  by (simp add: calculateSeasonScore_def ex_qb_season_def snapshot0_def getSeasonTier_def)

theorem calculateSeasonScore_QB_tier_counterexample:
  "calculateSeasonScore ex_qb_season ''QB'' = 370 \<and>
   Tier.label (getSeasonTier (calculateSeasonScore ex_qb_season ''QB'')) \<noteq> ''GREAT''"
  by (simp add: calculateSeasonScore_def ex_qb_season_def snapshot0_def getSeasonTier_def)

section \<open>Pace projection\<close>

lemma paceStep_le5:
  "\<forall>e\<in>set acc. js_le (PaceToRecord.seasonsToBreak e) (Fin 5) \<Longrightarrow>
   \<forall>e\<in>set (paceStep yds pos rn ydsRecord holder acc pl). js_le (PaceToRecord.seasonsToBreak e) (Fin 5)"
  by (auto simp: paceStep_def Let_def split: option.splits)

lemma foldl_paceStep_le5:
  "\<forall>e\<in>set acc. js_le (PaceToRecord.seasonsToBreak e) (Fin 5) \<Longrightarrow>
   \<forall>e\<in>set (foldl (paceStep yds pos rn ydsRecord holder) acc xs).
      js_le (PaceToRecord.seasonsToBreak e) (Fin 5)"
proof (induction xs arbitrary: acc)
  case Nil
  then show ?case by simp
next
  case (Cons x xs)
  show ?case
    unfolding foldl_Cons
    by (rule Cons.IH, rule paceStep_le5, rule Cons.prems)
qed

lemma paceRecords_le5:
  "\<forall>e\<in>set (paceRecords cd). js_le (PaceToRecord.seasonsToBreak e) (Fin 5)"
  unfolding paceRecords_def Let_def
  by (intro foldl_paceStep_le5) simp

lemma js_le_not_NaN: "js_le x y \<Longrightarrow> x \<noteq> NaN"
  by (simp add: js_le_def)

lemma paceToRecords_sorted:
  "sorted_wrt (\<lambda>a b. js_le (PaceToRecord.seasonsToBreak a) (PaceToRecord.seasonsToBreak b))
     (paceToRecords cd)"
  unfolding paceToRecords_def
  by (rule sorted_js_sort_asc) (use paceRecords_le5 js_le_not_NaN in blast)

lemma league_chase_pace:
  "map PaceToRecord.playerName (paceToRecords league_chase) = [''A'', ''B''] \<and>
   map PaceToRecord.seasonsToBreak (paceToRecords league_chase) = [Fin 2, Fin 4]"
  by (simp add: paceToRecords_def paceRecords_def league_chase_def league0_def Let_def recordOf_def
        activeWith16_def paceStep_def qb_def player0_def js_gt_def js_le_def)

text \<open>
  Claim C8. The list returned by the pace projection is sorted ascending by
  \<open>seasonsToBreak\<close>: of any two adjacent entries the earlier one's \<open>seasonsToBreak\<close> is
  less than or equal to the later one's.
\<close>

theorem paceToRecords_ascending:
  "\<forall>i. Suc i < length (paceToRecords cd) \<longrightarrow>
     js_le (PaceToRecord.seasonsToBreak (paceToRecords cd ! i))
           (PaceToRecord.seasonsToBreak (paceToRecords cd ! Suc i))"
  using paceToRecords_sorted [of cd] by (simp add: sorted_wrt_iff_nth_less)

theorem paceToRecords_ascending_witness:
  "Suc 0 < length (paceToRecords league_chase) \<and>
   map PaceToRecord.seasonsToBreak (paceToRecords league_chase) = [Fin 2, Fin 4] \<and>
   js_le (PaceToRecord.seasonsToBreak (paceToRecords league_chase ! 0))
         (PaceToRecord.seasonsToBreak (paceToRecords league_chase ! Suc 0))"
proof -
  have "length (map PaceToRecord.seasonsToBreak (paceToRecords league_chase)) = 2"
    using league_chase_pace by simp
  then have len: "Suc 0 < length (paceToRecords league_chase)" by simp
  with paceToRecords_ascending [of league_chase]
  have "js_le (PaceToRecord.seasonsToBreak (paceToRecords league_chase ! 0))
         (PaceToRecord.seasonsToBreak (paceToRecords league_chase ! Suc 0))"
    by blast
  with len league_chase_pace show ?thesis by simp
qed

lemma set_paceStep_mono: "set acc \<subseteq> set (paceStep yds pos rn ydsRecord holder acc pl)"
  by (auto simp: paceStep_def Let_def split: option.splits)

lemma set_foldl_paceStep_mono:
  "set acc \<subseteq> set (foldl (paceStep yds pos rn ydsRecord holder) acc xs)"
proof (induction xs arbitrary: acc)
  case Nil
  show ?case by simp
next
  case (Cons x xs)
  have "set acc \<subseteq> set (paceStep yds pos rn ydsRecord holder acc x)" by (rule set_paceStep_mono)
  also have "\<dots> \<subseteq> set (foldl (paceStep yds pos rn ydsRecord holder) (paceStep yds pos rn ydsRecord holder acc x) xs)"
    by (rule Cons.IH)
  finally show ?case by simp
qed

text \<open>Under the guards of the loop body the source's arithmetic is the spec's.\<close>

lemma paceStep_spec:
  assumes g: "0 < CareerPlayer.games pl"
    and pace: "0 < yds pl / CareerPlayer.games pl * 16"
    and below: "yds pl < ydsRecord"
  shows "paceStep yds pos rn ydsRecord (Some h) acc pl =
     (if \<lceil>(ydsRecord - yds pl) / (yds pl / CareerPlayer.games pl * 16)\<rceil> \<le> 5
      then acc @ [spec_paceRecord yds pos rn ydsRecord h pl] else acc)"
proof -
  have pos: "0 < yds pl" using g pace by (simp add: zero_less_mult_iff zero_less_divide_iff)
  then have "ydsRecord \<noteq> 0" using below by simp
  then show ?thesis
    using g pace below pos
    by (simp add: paceStep_def Let_def spec_paceRecord_def js_gt_def js_le_def)
qed

lemma holder_exists:
  "xs \<noteq> [] \<Longrightarrow> \<exists>h. List.find (\<lambda>q. yds q = recordOf yds xs) xs = Some h"
proof -
  assume ne: "xs \<noteq> []"
  have r: "recordOf yds xs = Max (yds ` set xs)" using ne by (simp add: recordOf_def)
  have "Max (yds ` set xs) \<in> yds ` set xs"
    by (rule Max_in) (use ne in simp_all)
  then obtain q where q: "q \<in> set xs" "Max (yds ` set xs) = yds q"
    by (rule imageE)
  have "List.find (\<lambda>q. yds q = recordOf yds xs) xs \<noteq> None"
    unfolding find_None_iff r using q by auto
  then show ?thesis by auto
qed

lemma foldl_paceStep_emits:
  assumes mem: "pl \<in> set xs"
    and g: "0 < CareerPlayer.games pl"
    and pace: "0 < yds pl / CareerPlayer.games pl * 16"
    and below: "yds pl < ydsRecord"
    and le5: "\<lceil>(ydsRecord - yds pl) / (yds pl / CareerPlayer.games pl * 16)\<rceil> \<le> 5"
  shows "spec_paceRecord yds pos rn ydsRecord h pl \<in> set (foldl (paceStep yds pos rn ydsRecord (Some h)) acc xs)"
  using mem
proof (induction xs arbitrary: acc)
  case Nil
  then show ?case by simp
next
  case (Cons x xs)
  show ?case
  proof (cases "x = pl")
    case True
    have "spec_paceRecord yds pos rn ydsRecord h pl \<in> set (paceStep yds pos rn ydsRecord (Some h) acc pl)"
      using paceStep_spec [of pl yds ydsRecord pos rn h acc, OF g pace below] le5 by simp
    then show ?thesis
      using set_foldl_paceStep_mono [of "paceStep yds pos rn ydsRecord (Some h) acc pl" yds pos rn ydsRecord "Some h" xs]
        True by auto
  next
    case False
    then have "pl \<in> set xs" using Cons.prems by simp
    then show ?thesis using Cons.IH by simp
  qed
qed

lemma set_paceToRecords: "set (paceToRecords cd) = set (paceRecords cd)"
  by (simp add: paceToRecords_def set_js_sort)

lemma activeWith16_mem:
  "pl \<in> set xs \<Longrightarrow> CareerPlayer.status pl = ''Active'' \<Longrightarrow> 16 \<le> CareerPlayer.games pl
     \<Longrightarrow> pl \<in> set (activeWith16 xs)"
  by (simp add: activeWith16_def)

lemma foldl_paceStep_keeps:
  "e \<in> set acc \<Longrightarrow> e \<in> set (foldl (paceStep yds pos rn ydsRecord holder) acc xs)"
  using set_foldl_paceStep_mono [of acc yds pos rn ydsRecord holder xs] by blast

lemma paceRecords_emits:
  assumes cat: "(yds, pos, rn, coll) \<in> set paceCategories"
    and mem: "pl \<in> set (coll cd)"
    and act: "CareerPlayer.status pl = ''Active''"
    and g16: "16 \<le> CareerPlayer.games pl"
    and pace: "0 < yds pl / CareerPlayer.games pl * 16"
    and below: "yds pl < recordOf yds (coll cd)"
    and holder: "List.find (\<lambda>q. yds q = recordOf yds (coll cd)) (coll cd) = Some h"
    and le5: "\<lceil>(recordOf yds (coll cd) - yds pl) / (yds pl / CareerPlayer.games pl * 16)\<rceil> \<le> 5"
  shows "spec_paceRecord yds pos rn (recordOf yds (coll cd)) h pl \<in> set (paceRecords cd)"
proof -
  have g: "0 < CareerPlayer.games pl" using g16 by simp
  have a: "pl \<in> set (activeWith16 (coll cd))" using mem act g16 by (rule activeWith16_mem)
  have emit: "spec_paceRecord yds pos rn (recordOf yds (coll cd)) h pl \<in>
      set (foldl (paceStep yds pos rn (recordOf yds (coll cd)) (Some h)) acc (activeWith16 (coll cd)))"
    for acc
    using a g pace below le5 by (rule foldl_paceStep_emits)
  from cat consider
      (qb) "yds = CareerPlayer.passYds" "pos = ''QB''" "rn = ''Career Passing Yards''"
           "coll = quarterbacks"
    | (rb) "yds = CareerPlayer.rushYds" "pos = ''RB''" "rn = ''Career Rushing Yards''"
           "coll = runningbacks"
    | (wr) "yds = CareerPlayer.recYds" "pos = ''WR''" "rn = ''Career Receiving Yards''"
           "coll = widereceivers"
    by (auto simp: paceCategories_def)
  then show ?thesis
  proof cases
    case qb
    have "spec_paceRecord yds pos rn (recordOf yds (coll cd)) h pl \<in>
      set (foldl (paceStep yds pos rn (recordOf yds (coll cd))
                    (List.find (\<lambda>q. yds q = recordOf yds (coll cd)) (coll cd)))
             [] (activeWith16 (coll cd)))"
      unfolding holder by (rule emit)
    then show ?thesis
      unfolding paceRecords_def Let_def qb
      by (rule foldl_paceStep_keeps [OF foldl_paceStep_keeps])
  next
    case rb
    have "spec_paceRecord yds pos rn (recordOf yds (coll cd)) h pl \<in>
      set (foldl (paceStep yds pos rn (recordOf yds (coll cd))
                    (List.find (\<lambda>q. yds q = recordOf yds (coll cd)) (coll cd)))
             acc (activeWith16 (coll cd)))" for acc
      unfolding holder by (rule emit)
    then show ?thesis
      unfolding paceRecords_def Let_def rb
      by (rule foldl_paceStep_keeps)
  next
    case wr
    have "spec_paceRecord yds pos rn (recordOf yds (coll cd)) h pl \<in>
      set (foldl (paceStep yds pos rn (recordOf yds (coll cd))
                    (List.find (\<lambda>q. yds q = recordOf yds (coll cd)) (coll cd)))
             acc (activeWith16 (coll cd)))" for acc
      unfolding holder by (rule emit)
    then show ?thesis
      unfolding paceRecords_def Let_def wr
      by this
  qed
qed

lemma spec_paceRecord_stb:
  "PaceToRecord.seasonsToBreak (spec_paceRecord yds pos rn ydsRecord h pl) =
     Fin (of_int \<lceil>(ydsRecord - yds pl) / (yds pl / CareerPlayer.games pl * 16)\<rceil>)"
  by (simp add: spec_paceRecord_def)

lemma js_le_Fin_int: "js_le (Fin (of_int c)) (Fin 5) = (c \<le> 5)"
proof -
  have "(real_of_int c \<le> 5) = (c \<le> 5)" by linarith
  then show ?thesis by (simp add: js_le_def not_less)
qed

lemma pace_record_iff:
  assumes cat: "(yds, pos, rn, coll) \<in> set paceCategories"
    and mem: "pl \<in> set (coll cd)"
    and act: "CareerPlayer.status pl = ''Active''"
    and g16: "16 \<le> CareerPlayer.games pl"
    and pace: "0 < yds pl / CareerPlayer.games pl * 16"
    and below: "yds pl < recordOf yds (coll cd)"
  shows "(\<exists>h. List.find (\<lambda>q. yds q = recordOf yds (coll cd)) (coll cd) = Some h) \<and>
         (\<forall>h. List.find (\<lambda>q. yds q = recordOf yds (coll cd)) (coll cd) = Some h \<longrightarrow>
            (spec_paceRecord yds pos rn (recordOf yds (coll cd)) h pl \<in> set (paceToRecords cd)
               \<longleftrightarrow>
             \<lceil>(recordOf yds (coll cd) - yds pl) / (yds pl / CareerPlayer.games pl * 16)\<rceil> \<le> 5))"
proof (intro conjI allI impI)
  have "coll cd \<noteq> []" using mem by auto
  then show "\<exists>h. List.find (\<lambda>q. yds q = recordOf yds (coll cd)) (coll cd) = Some h"
    by (rule holder_exists)
next
  fix h
  assume holder: "List.find (\<lambda>q. yds q = recordOf yds (coll cd)) (coll cd) = Some h"
  let ?e = "spec_paceRecord yds pos rn (recordOf yds (coll cd)) h pl"
  let ?c = "\<lceil>(recordOf yds (coll cd) - yds pl) / (yds pl / CareerPlayer.games pl * 16)\<rceil>"
  show "?e \<in> set (paceToRecords cd) \<longleftrightarrow> ?c \<le> 5"
  proof
    assume "?e \<in> set (paceToRecords cd)"
    then have "js_le (PaceToRecord.seasonsToBreak ?e) (Fin 5)"
      using paceRecords_le5 [of cd] by (simp add: set_paceToRecords)
    then show "?c \<le> 5" by (simp only: spec_paceRecord_stb js_le_Fin_int)
  next
    assume "?c \<le> 5"
    with cat mem act g16 pace below holder have "?e \<in> set (paceRecords cd)"
      by (rule paceRecords_emits)
    then show "?e \<in> set (paceToRecords cd)" by (simp add: set_paceToRecords)
  qed
qed

lemma paceStep_skip:
  assumes g: "0 < CareerPlayer.games pl"
    and no: "\<not> (0 < yds pl / CareerPlayer.games pl * 16 \<and> yds pl < ydsRecord)"
  shows "paceStep yds pos rn ydsRecord holder acc pl = acc"
  using g no by (auto simp: paceStep_def Let_def js_gt_def split: option.splits)

lemma paceStep_no_holder: "paceStep yds pos rn ydsRecord None acc pl = acc"
  by (simp add: paceStep_def Let_def)

lemma foldl_paceStep_no_holder: "foldl (paceStep yds pos rn ydsRecord None) acc ys = acc"
  by (induction ys arbitrary: acc) (simp_all add: paceStep_no_holder)

lemma foldl_paceStep_spec:
  assumes "\<forall>pl\<in>set ys. 0 < CareerPlayer.games pl"
  shows "foldl (paceStep yds pos rn ydsRecord (Some h)) acc ys =
     acc @ map (spec_paceRecord yds pos rn ydsRecord h)
             (filter (\<lambda>pl. 0 < yds pl / CareerPlayer.games pl * 16 \<and> yds pl < ydsRecord \<and>
                \<lceil>(ydsRecord - yds pl) / (yds pl / CareerPlayer.games pl * 16)\<rceil> \<le> 5) ys)"
  using assms
proof (induction ys arbitrary: acc)
  case Nil
  show ?case by simp
next
  case (Cons pl ys)
  let ?P = "\<lambda>pl. 0 < yds pl / CareerPlayer.games pl * 16 \<and> yds pl < ydsRecord \<and>
                \<lceil>(ydsRecord - yds pl) / (yds pl / CareerPlayer.games pl * 16)\<rceil> \<le> 5"
  have g: "0 < CareerPlayer.games pl" using Cons.prems by simp
  have rest: "\<forall>pl\<in>set ys. 0 < CareerPlayer.games pl" using Cons.prems by simp
  have st: "paceStep yds pos rn ydsRecord (Some h) acc pl =
      (if ?P pl then acc @ [spec_paceRecord yds pos rn ydsRecord h pl] else acc)"
  proof (cases "0 < yds pl / CareerPlayer.games pl * 16 \<and> yds pl < ydsRecord")
    case True
    then have "paceStep yds pos rn ydsRecord (Some h) acc pl =
        (if \<lceil>(ydsRecord - yds pl) / (yds pl / CareerPlayer.games pl * 16)\<rceil> \<le> 5
         then acc @ [spec_paceRecord yds pos rn ydsRecord h pl] else acc)"
      using paceStep_spec [of pl yds ydsRecord pos rn h acc] g by blast
    with True show ?thesis by presburger
  next
    case False
    have "paceStep yds pos rn ydsRecord (Some h) acc pl = acc"
      using g False by (rule paceStep_skip)
    with False show ?thesis by presburger
  qed
  show ?case
  proof (cases "?P pl")
    case True
    then have f: "filter ?P (pl # ys) = pl # filter ?P ys" by simp
    show ?thesis
      unfolding foldl_Cons st f using True by (simp add: Cons.IH [OF rest])
  next
    case False
    then have f: "filter ?P (pl # ys) = filter ?P ys" by simp
    show ?thesis
      unfolding foldl_Cons st f using False by (simp add: Cons.IH [OF rest])
  qed
qed

lemma foldl_paceStep_rows:
  "foldl (paceStep yds pos rn (recordOf yds xs) (List.find (\<lambda>q. yds q = recordOf yds xs) xs))
     acc (activeWith16 xs) = acc @ spec_paceRows yds pos rn xs"
proof (cases "List.find (\<lambda>q. yds q = recordOf yds xs) xs")
  case None
  then show ?thesis by (simp add: foldl_paceStep_no_holder spec_paceRows_def)
next
  case (Some h)
  have g: "\<forall>pl\<in>set (activeWith16 xs). 0 < CareerPlayer.games pl"
    by (auto simp: activeWith16_def)
  have flt: "filter P (activeWith16 xs) =
      filter (\<lambda>pl. CareerPlayer.status pl = ''Active'' \<and> 16 \<le> CareerPlayer.games pl \<and> P pl) xs"
    for P
    by (simp add: activeWith16_def conj_ac)
  show ?thesis
    unfolding Some foldl_paceStep_spec [OF g] flt
    by (simp add: spec_paceRows_def Some)
qed

lemma paceRecords_spec: "paceRecords cd = spec_paceRecords cd"
  by (simp add: paceRecords_def Let_def foldl_paceStep_rows spec_paceRecords_def)

lemma holder_is_max:
  assumes "List.find (\<lambda>q. yds q = recordOf yds xs) xs = Some h"
  shows "h \<in> set xs \<and> yds h = recordOf yds xs \<and> (\<forall>q\<in>set xs. yds q \<le> yds h)"
proof -
  from assms have h: "h \<in> set xs" "yds h = recordOf yds xs"
    by (auto simp: find_Some_iff)
  then have "xs \<noteq> []" by auto
  then have r: "recordOf yds xs = Max (yds ` set xs)" by (simp add: recordOf_def)
  have "yds q \<le> Max (yds ` set xs)" if "q \<in> set xs" for q
    using that by (intro Max_ge) simp_all
  then show ?thesis using h r by simp
qed

lemma league_500_facts:
  "qb ''P'' 100 16 ''Active'' \<in> set (quarterbacks league_500)"
  "CareerPlayer.status (qb ''P'' 100 16 ''Active'') = ''Active''"
  "16 \<le> CareerPlayer.games (qb ''P'' 100 16 ''Active'')"
  "CareerPlayer.passYds (qb ''P'' 100 16 ''Active'') / CareerPlayer.games (qb ''P'' 100 16 ''Active'') * 16 = 100"
  "CareerPlayer.passYds (qb ''P'' 100 16 ''Active'') = 100"
  "recordOf CareerPlayer.passYds (quarterbacks league_500) = 600"
  "CareerPlayer.games (qb ''P'' 100 16 ''Active'') = 16"
  "List.find (\<lambda>q. CareerPlayer.passYds q = recordOf CareerPlayer.passYds (quarterbacks league_500))
     (quarterbacks league_500) = Some (qb ''H'' 600 160 ''Retired'')"
  "List.find (\<lambda>q. CareerPlayer.passYds q = 600) (quarterbacks league_500) =
     Some (qb ''H'' 600 160 ''Retired'')"
  by (simp_all add: league_500_def league0_def recordOf_def qb_def player0_def)

lemma league_600_facts:
  "qb ''P'' 100 16 ''Active'' \<in> set (quarterbacks league_600)"
  "recordOf CareerPlayer.passYds (quarterbacks league_600) = 700"
  "List.find (\<lambda>q. CareerPlayer.passYds q = recordOf CareerPlayer.passYds (quarterbacks league_600))
     (quarterbacks league_600) = Some (qb ''H'' 700 160 ''Retired'')"
  "List.find (\<lambda>q. CareerPlayer.passYds q = 700) (quarterbacks league_600) =
     Some (qb ''H'' 700 160 ''Retired'')"
  by (simp_all add: league_600_def league0_def recordOf_def qb_def player0_def)

lemma league_600_spec: "spec_paceRecords league_600 = []"
  by (simp add: spec_paceRecords_def spec_paceRows_def league_600_def league0_def recordOf_def
        qb_def player0_def)

lemma league_500_spec:
  "spec_paceRecords league_500 =
     [spec_paceRecord CareerPlayer.passYds ''QB'' ''Career Passing Yards'' 600
        (qb ''H'' 600 160 ''Retired'') (qb ''P'' 100 16 ''Active'')]"
  by (simp add: spec_paceRecords_def spec_paceRows_def league_500_def league0_def recordOf_def
        qb_def player0_def)

text \<open>
  Claim C4. The projection returns, sorted, exactly the pace records the spec describes
  and no other. For every active player of a covered category (passing yards of the
  quarterbacks, rushing yards of the running backs, receiving yards of the wide
  receivers) with at least 16 games, a positive pace \<open>(statTotal / gamesPlayed) * 16\<close> and
  a total strictly below the category record: the record has a holder, who holds the
  largest value of the category; the loop body for the player pushes the record with
  \<open>seasonsToBreak = ceil((recordValue - currentValue) / pacePerSeason)\<close> and
  \<open>percentToRecord = currentValue / recordValue * 100\<close> when \<open>seasonsToBreak \<le> 5\<close> and pushes
  nothing otherwise; and that record is in the output if and only if
  \<open>seasonsToBreak \<le> 5\<close>.
\<close>

theorem pace_cutoff:
  "paceToRecords cd =
     js_sort (\<lambda>a b. js_sub (PaceToRecord.seasonsToBreak a) (PaceToRecord.seasonsToBreak b))
       (spec_paceRecords cd) \<and>
   ((yds, pos, rn, coll) \<in> set paceCategories \<and> pl \<in> set (coll cd) \<and>
    CareerPlayer.status pl = ''Active'' \<and> 16 \<le> CareerPlayer.games pl \<and>
    0 < yds pl / CareerPlayer.games pl * 16 \<and> yds pl < recordOf yds (coll cd) \<longrightarrow>
      (\<exists>h. List.find (\<lambda>q. yds q = recordOf yds (coll cd)) (coll cd) = Some h) \<and>
      (\<forall>h. List.find (\<lambda>q. yds q = recordOf yds (coll cd)) (coll cd) = Some h \<longrightarrow>
         h \<in> set (coll cd) \<and> yds h = recordOf yds (coll cd) \<and>
         (\<forall>q\<in>set (coll cd). yds q \<le> yds h) \<and>
         (\<forall>acc. paceStep yds pos rn (recordOf yds (coll cd)) (Some h) acc pl =
            (if \<lceil>(recordOf yds (coll cd) - yds pl) / (yds pl / CareerPlayer.games pl * 16)\<rceil> \<le> 5
             then acc @ [spec_paceRecord yds pos rn (recordOf yds (coll cd)) h pl] else acc)) \<and>
         (spec_paceRecord yds pos rn (recordOf yds (coll cd)) h pl \<in> set (paceToRecords cd)
            \<longleftrightarrow>
          \<lceil>(recordOf yds (coll cd) - yds pl) / (yds pl / CareerPlayer.games pl * 16)\<rceil> \<le> 5)))"
proof (intro conjI impI)
  show "paceToRecords cd =
     js_sort (\<lambda>a b. js_sub (PaceToRecord.seasonsToBreak a) (PaceToRecord.seasonsToBreak b))
       (spec_paceRecords cd)"
    by (simp add: paceToRecords_def paceRecords_spec)
next
  assume h: "(yds, pos, rn, coll) \<in> set paceCategories \<and> pl \<in> set (coll cd) \<and>
    CareerPlayer.status pl = ''Active'' \<and> 16 \<le> CareerPlayer.games pl \<and>
    0 < yds pl / CareerPlayer.games pl * 16 \<and> yds pl < recordOf yds (coll cd)"
  then have cat: "(yds, pos, rn, coll) \<in> set paceCategories" and mem: "pl \<in> set (coll cd)"
    and act: "CareerPlayer.status pl = ''Active''" and g16: "16 \<le> CareerPlayer.games pl"
    and pace: "0 < yds pl / CareerPlayer.games pl * 16"
    and below: "yds pl < recordOf yds (coll cd)"
    by simp_all
  note iff = pace_record_iff [OF cat mem act g16 pace below]
  have g: "0 < CareerPlayer.games pl" using g16 by simp
  show "\<exists>h. List.find (\<lambda>q. yds q = recordOf yds (coll cd)) (coll cd) = Some h"
    using iff by blast
  show "\<forall>h. List.find (\<lambda>q. yds q = recordOf yds (coll cd)) (coll cd) = Some h \<longrightarrow>
         h \<in> set (coll cd) \<and> yds h = recordOf yds (coll cd) \<and>
         (\<forall>q\<in>set (coll cd). yds q \<le> yds h) \<and>
         (\<forall>acc. paceStep yds pos rn (recordOf yds (coll cd)) (Some h) acc pl =
            (if \<lceil>(recordOf yds (coll cd) - yds pl) / (yds pl / CareerPlayer.games pl * 16)\<rceil> \<le> 5
             then acc @ [spec_paceRecord yds pos rn (recordOf yds (coll cd)) h pl] else acc)) \<and>
         (spec_paceRecord yds pos rn (recordOf yds (coll cd)) h pl \<in> set (paceToRecords cd)
            \<longleftrightarrow>
          \<lceil>(recordOf yds (coll cd) - yds pl) / (yds pl / CareerPlayer.games pl * 16)\<rceil> \<le> 5)"
  proof (intro allI impI)
    fix h
    assume f: "List.find (\<lambda>q. yds q = recordOf yds (coll cd)) (coll cd) = Some h"
    have m: "h \<in> set (coll cd) \<and> yds h = recordOf yds (coll cd) \<and>
         (\<forall>q\<in>set (coll cd). yds q \<le> yds h)"
      using f by (rule holder_is_max)
    have s: "\<forall>acc. paceStep yds pos rn (recordOf yds (coll cd)) (Some h) acc pl =
            (if \<lceil>(recordOf yds (coll cd) - yds pl) / (yds pl / CareerPlayer.games pl * 16)\<rceil> \<le> 5
             then acc @ [spec_paceRecord yds pos rn (recordOf yds (coll cd)) h pl] else acc)"
      using paceStep_spec [of pl yds "recordOf yds (coll cd)" pos rn h, OF g pace below] by blast
    have i: "spec_paceRecord yds pos rn (recordOf yds (coll cd)) h pl \<in> set (paceToRecords cd)
            \<longleftrightarrow>
          \<lceil>(recordOf yds (coll cd) - yds pl) / (yds pl / CareerPlayer.games pl * 16)\<rceil> \<le> 5"
      using iff f by blast
    show "h \<in> set (coll cd) \<and> yds h = recordOf yds (coll cd) \<and>
         (\<forall>q\<in>set (coll cd). yds q \<le> yds h) \<and>
         (\<forall>acc. paceStep yds pos rn (recordOf yds (coll cd)) (Some h) acc pl =
            (if \<lceil>(recordOf yds (coll cd) - yds pl) / (yds pl / CareerPlayer.games pl * 16)\<rceil> \<le> 5
             then acc @ [spec_paceRecord yds pos rn (recordOf yds (coll cd)) h pl] else acc)) \<and>
         (spec_paceRecord yds pos rn (recordOf yds (coll cd)) h pl \<in> set (paceToRecords cd)
            \<longleftrightarrow>
          \<lceil>(recordOf yds (coll cd) - yds pl) / (yds pl / CareerPlayer.games pl * 16)\<rceil> \<le> 5)"
      using m s i by (intro conjI) blast+
  qed
qed

theorem pace_cutoff_witness:
  "(CareerPlayer.passYds, ''QB'', ''Career Passing Yards'', quarterbacks) \<in> set paceCategories \<and>
   qb ''P'' 100 16 ''Active'' \<in> set (quarterbacks league_500) \<and>
   qb ''P'' 100 16 ''Active'' \<in> set (quarterbacks league_600) \<and>
   CareerPlayer.status (qb ''P'' 100 16 ''Active'') = ''Active'' \<and>
   16 \<le> CareerPlayer.games (qb ''P'' 100 16 ''Active'') \<and>
   CareerPlayer.passYds (qb ''P'' 100 16 ''Active'') /
     CareerPlayer.games (qb ''P'' 100 16 ''Active'') * 16 = 100 \<and>
   recordOf CareerPlayer.passYds (quarterbacks league_500) -
     CareerPlayer.passYds (qb ''P'' 100 16 ''Active'') = 500 \<and>
   \<lceil>(500::real) / 100\<rceil> = 5 \<and>
   spec_paceRecord CareerPlayer.passYds ''QB'' ''Career Passing Yards'' 600
       (qb ''H'' 600 160 ''Retired'') (qb ''P'' 100 16 ''Active'')
     \<in> set (paceToRecords league_500) \<and>
   paceToRecords league_500 =
     [spec_paceRecord CareerPlayer.passYds ''QB'' ''Career Passing Yards'' 600
        (qb ''H'' 600 160 ''Retired'') (qb ''P'' 100 16 ''Active'')] \<and>
   PaceToRecord.seasonsToBreak (spec_paceRecord CareerPlayer.passYds ''QB''
       ''Career Passing Yards'' 600 (qb ''H'' 600 160 ''Retired'') (qb ''P'' 100 16 ''Active''))
     = Fin 5 \<and>
   recordOf CareerPlayer.passYds (quarterbacks league_600) -
     CareerPlayer.passYds (qb ''P'' 100 16 ''Active'') = 600 \<and>
   \<lceil>(600::real) / 100\<rceil> = 6 \<and>
   spec_paceRecord CareerPlayer.passYds ''QB'' ''Career Passing Yards'' 700
       (qb ''H'' 700 160 ''Retired'') (qb ''P'' 100 16 ''Active'')
     \<notin> set (paceToRecords league_600) \<and>
   paceStep CareerPlayer.passYds ''QB'' ''Career Passing Yards'' 700
       (Some (qb ''H'' 700 160 ''Retired'')) [] (qb ''P'' 100 16 ''Active'') = [] \<and>
   paceToRecords league_600 = []"
proof -
  let ?p = "qb ''P'' 100 16 ''Active''"
  have cat: "(CareerPlayer.passYds, ''QB'', ''Career Passing Yards'', quarterbacks)
      \<in> set paceCategories"
    by (simp add: paceCategories_def)
  have pace: "0 < CareerPlayer.passYds ?p / CareerPlayer.games ?p * 16"
    by (simp add: league_500_facts(5,7))
  have b5: "CareerPlayer.passYds ?p < recordOf CareerPlayer.passYds (quarterbacks league_500)"
    by (simp add: league_500_facts)
  have b6: "CareerPlayer.passYds ?p < recordOf CareerPlayer.passYds (quarterbacks league_600)"
    by (simp add: league_500_facts league_600_facts)
  have c5: "\<lceil>(500::real) / 100\<rceil> = 5" and c6: "\<lceil>(600::real) / 100\<rceil> = 6" by simp_all
  note t5 = pace_cutoff [of league_500 CareerPlayer.passYds "''QB''"
      "''Career Passing Yards''" quarterbacks ?p]
  note t6 = pace_cutoff [of league_600 CareerPlayer.passYds "''QB''"
      "''Career Passing Yards''" quarterbacks ?p]
  have all5: "paceToRecords league_500 =
     [spec_paceRecord CareerPlayer.passYds ''QB'' ''Career Passing Yards'' 600
        (qb ''H'' 600 160 ''Retired'') ?p]"
    using t5 by (simp add: league_500_spec)
  have all6: "paceToRecords league_600 = []"
    using t6 by (simp add: league_600_spec)
  have in5: "spec_paceRecord CareerPlayer.passYds ''QB'' ''Career Passing Yards'' 600
       (qb ''H'' 600 160 ''Retired'') ?p \<in> set (paceToRecords league_500)"
    using all5 by simp
  have out6: "spec_paceRecord CareerPlayer.passYds ''QB'' ''Career Passing Yards'' 700
       (qb ''H'' 700 160 ''Retired'') ?p \<notin> set (paceToRecords league_600)"
    using all6 by simp
  have stb5: "PaceToRecord.seasonsToBreak (spec_paceRecord CareerPlayer.passYds ''QB''
       ''Career Passing Yards'' 600 (qb ''H'' 600 160 ''Retired'') ?p) = Fin 5"
    by (simp add: spec_paceRecord_def league_500_facts(5,7))
  from t6 cat league_600_facts(1) league_500_facts(2) league_500_facts(3) pace b6
  have "\<forall>h. List.find (\<lambda>q. CareerPlayer.passYds q =
              recordOf CareerPlayer.passYds (quarterbacks league_600))
            (quarterbacks league_600) = Some h \<longrightarrow>
       (\<forall>acc. paceStep CareerPlayer.passYds ''QB'' ''Career Passing Yards''
          (recordOf CareerPlayer.passYds (quarterbacks league_600)) (Some h) acc ?p =
            (if \<lceil>(recordOf CareerPlayer.passYds (quarterbacks league_600) - CareerPlayer.passYds ?p)
                  / (CareerPlayer.passYds ?p / CareerPlayer.games ?p * 16)\<rceil> \<le> 5
             then acc @ [spec_paceRecord CareerPlayer.passYds ''QB'' ''Career Passing Yards''
                  (recordOf CareerPlayer.passYds (quarterbacks league_600)) h ?p] else acc))"
    by blast
  then have step6: "paceStep CareerPlayer.passYds ''QB'' ''Career Passing Yards'' 700
       (Some (qb ''H'' 700 160 ''Retired'')) [] ?p = []"
    using league_600_facts(3) by (simp add: league_600_facts(2) league_500_facts(5,7))
  show ?thesis
    using cat league_500_facts league_600_facts c5 c6 in5 out6 all5 all6 stb5 step6 by simp
qed

section \<open>Loops that push\<close>

lemma foldl_push: "foldl (\<lambda>acc x. acc @ [g x]) acc xs = acc @ map g xs"
  by (induction xs arbitrary: acc) simp_all

section \<open>Single-season leaderboards\<close>

lemma allSnapshots_fold:
  "foldl (\<lambda>acc (playerKey, snapshots).
            if length snapshots \<le> 1 then acc
            else foldl (\<lambda>acc snapshot. acc @ [(playerKey, snapshot)]) acc snapshots) acc history
   = acc @ concat (map (\<lambda>(k, snaps). if 1 < length snaps then map (Pair k) snaps else []) history)"
proof (induction history arbitrary: acc)
  case Nil
  show ?case by simp
next
  case (Cons x history)
  obtain k snaps where x: "x = (k, snaps)" by (cases x)
  show ?case
    unfolding foldl_Cons x Cons.IH
    by (simp add: foldl_push not_le)
qed

lemma allSnapshots_mem:
  "(k, s) \<in> set (allSnapshots history) \<longleftrightarrow>
     (\<exists>snaps. (k, snaps) \<in> set history \<and> 1 < length snaps \<and> s \<in> set snaps)"
  using allSnapshots_fold [of "[]" history]
  by (auto simp: allSnapshots_def split: if_splits)

lemma split_colon_nonempty: "split_colon k \<noteq> []"
  by (induction k) (auto split: list.splits)

lemma split_colon_two: "CHR '':'' \<in> set k \<Longrightarrow> \<exists>p q qs. split_colon k = p # q # qs"
proof (induction k)
  case Nil
  then show ?case by simp
next
  case (Cons c k)
  show ?case
  proof (cases "c = CHR '':''")
    case True
    then show ?thesis using split_colon_nonempty [of k] by (cases "split_colon k") auto
  next
    case False
    then have "CHR '':'' \<in> set k" using Cons.prems by simp
    then obtain p q qs where "split_colon k = p # q # qs" using Cons.IH by blast
    then show ?thesis using False by simp
  qed
qed

lemma join_split_colon: "join_colon (split_colon k) = k"
proof (induction k)
  case Nil
  show ?case by simp
next
  case (Cons c k)
  obtain w ws where s: "split_colon k = w # ws"
    using split_colon_nonempty [of k] by (cases "split_colon k") auto
  show ?case using Cons.IH s by (cases ws) auto
qed

lemma key_rebuild:
  assumes "CHR '':'' \<in> set k"
  shows "key_position (split_colon k) @ CHR '':'' # key_name (split_colon k) = k"
proof -
  obtain p q qs where s: "split_colon k = p # q # qs" using split_colon_two [OF assms] by blast
  have "join_colon (split_colon k) = k" by (rule join_split_colon)
  then show ?thesis using s by simp
qed

lemma prefix_colon:
  "prefix ''QB:'' k \<Longrightarrow> CHR '':'' \<in> set k"
  "prefix ''RB:'' k \<Longrightarrow> CHR '':'' \<in> set k"
  "prefix ''WR:'' k \<Longrightarrow> CHR '':'' \<in> set k"
  "prefix ''TE:'' k \<Longrightarrow> CHR '':'' \<in> set k"
  "isDefKey k \<Longrightarrow> CHR '':'' \<in> set k"
  by (auto simp: isDefKey_def prefix_def)

lemma findTopNSeason_sorted_mem:
  "x \<in> set (findTopNSeason_sorted snaps flt gv n) \<Longrightarrow> x \<in> set snaps \<and> flt (fst x)"
  using set_js_slice0 [of n "js_sort (\<lambda>a b. js_sub (gv (snd b)) (gv (snd a)))
          (filter (\<lambda>(playerKey, snapshot). js_gt (gv snapshot) (Fin 0))
             (filter (\<lambda>(playerKey, snapshot). flt playerKey) snaps))"]
  by (auto simp: findTopNSeason_sorted_def set_js_sort)

lemma findTopNSeason_entry:
  assumes r: "findTopNSeason snaps flt gv st descr n = Some t"
    and e: "e \<in> set (TopNRecord.entries t)"
  shows "\<exists>k s. (k, s) \<in> set snaps \<and> flt k \<and>
           RecordEntry.position e = key_position (split_colon k) \<and>
           RecordEntry.playerName e = key_name (split_colon k) \<and>
           RecordEntry.season e = Some (SeasonSnapshot.season s) \<and>
           RecordEntry.value e = gv s"
proof -
  from r e obtain x where x: "x \<in> set (findTopNSeason_sorted snaps flt gv n)"
    and ex: "e = (\<lambda>(playerKey, snapshot).
                    \<lparr> RecordEntry.stat = st,
                      RecordEntry.value = gv snapshot,
                      RecordEntry.playerName = key_name (split_colon playerKey),
                      RecordEntry.team = None,
                      RecordEntry.position = key_position (split_colon playerKey),
                      RecordEntry.season = Some (SeasonSnapshot.season snapshot) \<rparr>) x"
    by (auto simp: findTopNSeason_def Let_def split: if_splits)
  obtain k s where ks: "x = (k, s)" by (cases x)
  have "(k, s) \<in> set snaps \<and> flt k" using findTopNSeason_sorted_mem [OF x] ks by simp
  then show ?thesis using ex ks by auto
qed

lemma singleSeasonRecords_fields:
  assumes "singleSeasonRecords history = Some r"
  shows "leaderboards r =
     [findTopNSeason (allSnapshots history) (prefix ''QB:'')
        (\<lambda>s. Fin (or0 (SeasonSnapshot.passYds s))) ''Passing Yards'' ''Single season'' 5,
      findTopNSeason (allSnapshots history) (prefix ''QB:'')
        (\<lambda>s. Fin (or0 (SeasonSnapshot.passTD s))) ''Passing TDs'' ''Single season'' 5,
      findTopNSeason (allSnapshots history) (prefix ''QB:'')
        (\<lambda>s. Fin (or0 (SeasonSnapshot.passTD s) + or0 (SeasonSnapshot.rushTD s)))
        ''Total TDs'' ''Pass + Rush'' 5,
      findTopNSeason (allSnapshots history) (prefix ''RB:'')
        (\<lambda>s. Fin (or0 (SeasonSnapshot.rushYds s))) ''Rushing Yards'' ''Single season'' 5,
      findTopNSeason (allSnapshots history) (prefix ''RB:'')
        (\<lambda>s. Fin (or0 (SeasonSnapshot.rushTD s))) ''Rushing TDs'' ''Single season'' 5,
      findTopNSeason (allSnapshots history) (prefix ''RB:'')
        (\<lambda>s. Fin (or0 (SeasonSnapshot.rushYds s) + or0 (SeasonSnapshot.recYds s)))
        ''Scrimmage Yds'' ''Rush + Rec'' 5,
      findTopNSeason (allSnapshots history) (prefix ''WR:'')
        (\<lambda>s. Fin (or0 (SeasonSnapshot.recYds s))) ''Receiving Yards'' ''Single season'' 5,
      findTopNSeason (allSnapshots history) (prefix ''WR:'')
        (\<lambda>s. Fin (or0 (SeasonSnapshot.recTD s))) ''Receiving TDs'' ''Single season'' 5,
      findTopNSeason (allSnapshots history) (prefix ''TE:'')
        (\<lambda>s. Fin (or0 (SeasonSnapshot.recYds s))) ''TE Rec Yards'' ''Single season'' 5,
      findTopNSeason (allSnapshots history) isDefKey
        (\<lambda>s. Fin (or0 (SeasonSnapshot.tackles s))) ''Tackles'' ''Single season'' 5,
      findTopNSeason (allSnapshots history) isDefKey
        (\<lambda>s. Fin (or0 (SeasonSnapshot.sacks s))) ''Sacks'' ''Single season'' 5,
      findTopNSeason (allSnapshots history) isDefKey
        (\<lambda>s. Fin (or0 (SeasonSnapshot.interceptions s))) ''INTs'' ''Single season'' 5]"
  using assms
  by (auto simp: singleSeasonRecords_def Let_def leaderboards_def split: if_splits)

lemma leaderboard_source:
  assumes r: "singleSeasonRecords history = Some r"
    and b: "board \<in> set (leaderboards r)"
  shows "\<exists>flt gv st descr. board = findTopNSeason (allSnapshots history) flt gv st descr 5 \<and>
           (\<forall>k. flt k \<longrightarrow> CHR '':'' \<in> set k)"
proof -
  have c: "\<exists>flt gv' st' descr'.
             findTopNSeason S f gv st descr 5 = findTopNSeason S flt gv' st' descr' 5 \<and>
             (\<forall>k. flt k \<longrightarrow> CHR '':'' \<in> set k)"
    if "\<And>k. f k \<Longrightarrow> CHR '':'' \<in> set k" for f gv st descr S
    using that by blast
  have "\<forall>board \<in> set (leaderboards r).
          \<exists>flt gv st descr. board = findTopNSeason (allSnapshots history) flt gv st descr 5 \<and>
           (\<forall>k. flt k \<longrightarrow> CHR '':'' \<in> set k)"
    unfolding singleSeasonRecords_fields [OF r] list.set ball_simps
    by (intro conjI TrueI c; erule prefix_colon)
  then show ?thesis using b by blast
qed

lemma ex_history_snapshots:
  "allSnapshots ex_history = [(''QB:Tom'', tom_y1), (''QB:Tom'', tom_y2)]"
  by (simp add: allSnapshots_def ex_history_def)

lemma ex_history_board:
  "findTopNSeason (allSnapshots ex_history) (prefix ''QB:'')
     (\<lambda>s. Fin (or0 (SeasonSnapshot.passYds s))) ''Passing Yards'' ''Single season'' 5
   = Some ex_season_board"
  by (simp add: ex_history_snapshots findTopNSeason_def findTopNSeason_sorted_def Let_def
        js_slice0_def js_gt_def tom_y1_def tom_y2_def ex_qb_season_def snapshot0_def
        ex_season_board_def)

text \<open>
  Claim C10. The single-season leaderboards only consider snapshots of players whose
  stored history has more than one season: every entry of every leaderboard of
  \<open>singleSeasonRecords\<close> belongs to a player key with more than one snapshot and carries
  the season label of one of them; so, keys being unique in the history, no entry belongs
  to a player with exactly one stored snapshot, whatever that snapshot's value.
\<close>

theorem single_season_players_excluded:
  assumes r: "singleSeasonRecords history = Some r"
    and b: "board \<in> set (leaderboards r)"
    and t: "board = Some t"
    and e: "e \<in> set (TopNRecord.entries t)"
  shows "(\<exists>key snaps s. (key, snaps) \<in> set history \<and> 1 < length snaps \<and> s \<in> set snaps \<and>
            RecordEntry.position e @ CHR '':'' # RecordEntry.playerName e = key \<and>
            RecordEntry.season e = Some (SeasonSnapshot.season s)) \<and>
         (distinct (map fst history) \<longrightarrow>
            (\<forall>key snaps. (key, snaps) \<in> set history \<and> length snaps = 1 \<longrightarrow>
               RecordEntry.position e @ CHR '':'' # RecordEntry.playerName e \<noteq> key))"
proof -
  from leaderboard_source [OF r b] obtain flt gv st descr where
    src: "board = findTopNSeason (allSnapshots history) flt gv st descr 5"
    and colon: "\<And>k. flt k \<Longrightarrow> CHR '':'' \<in> set k"
    by blast
  from src t have "findTopNSeason (allSnapshots history) flt gv st descr 5 = Some t" by simp
  from findTopNSeason_entry [OF this e] obtain k s where
    ks: "(k, s) \<in> set (allSnapshots history)" "flt k"
      "RecordEntry.position e = key_position (split_colon k)"
      "RecordEntry.playerName e = key_name (split_colon k)"
      "RecordEntry.season e = Some (SeasonSnapshot.season s)"
    by blast
  have key: "RecordEntry.position e @ CHR '':'' # RecordEntry.playerName e = k"
    using key_rebuild [OF colon [OF ks(2)]] ks(3,4) by simp
  from ks(1) obtain snaps where
    sn: "(k, snaps) \<in> set history" "1 < length snaps" "s \<in> set snaps"
    unfolding allSnapshots_mem by blast
  have A: "\<exists>key snaps s. (key, snaps) \<in> set history \<and> 1 < length snaps \<and> s \<in> set snaps \<and>
            RecordEntry.position e @ CHR '':'' # RecordEntry.playerName e = key \<and>
            RecordEntry.season e = Some (SeasonSnapshot.season s)"
    using key sn ks(5) by blast
  have B: "RecordEntry.position e @ CHR '':'' # RecordEntry.playerName e \<noteq> key'"
    if d: "distinct (map fst history)" and m: "(key', snaps') \<in> set history"
      and l: "length snaps' = 1" for key' snaps'
  proof
    assume "RecordEntry.position e @ CHR '':'' # RecordEntry.playerName e = key'"
    then have "key' = k" using key by simp
    then have "snaps' = snaps" using d m sn(1) by (metis eq_key_imp_eq_value)
    then show False using l sn(2) by simp
  qed
  show ?thesis using A B by blast
qed

theorem single_season_players_excluded_witness:
  "singleSeasonRecords ex_history \<noteq> None \<and>
   Some ex_season_board \<in> set (leaderboards (the (singleSeasonRecords ex_history))) \<and>
   TopNRecord.entries ex_season_board ! 0 \<in> set (TopNRecord.entries ex_season_board) \<and>
   distinct (map fst ex_history) \<and>
   (''QB:Rook'', [rook_y2]) \<in> set ex_history \<and> length [rook_y2] = 1 \<and>
   or0 (SeasonSnapshot.passYds rook_y2) = 5000 \<and>
   RecordEntry.position (TopNRecord.entries ex_season_board ! 0) @ CHR '':'' #
     RecordEntry.playerName (TopNRecord.entries ex_season_board ! 0) \<noteq> ''QB:Rook'' \<and>
   (\<exists>key snaps s. (key, snaps) \<in> set ex_history \<and> 1 < length snaps \<and> s \<in> set snaps \<and>
      RecordEntry.position (TopNRecord.entries ex_season_board ! 0) @ CHR '':'' #
        RecordEntry.playerName (TopNRecord.entries ex_season_board ! 0) = key \<and>
      RecordEntry.season (TopNRecord.entries ex_season_board ! 0) =
        Some (SeasonSnapshot.season s))"
proof -
  have ne: "singleSeasonRecords ex_history \<noteq> None"
    by (simp add: singleSeasonRecords_def Let_def ex_history_snapshots)
  then obtain R where R: "singleSeasonRecords ex_history = Some R" by auto
  have b: "Some ex_season_board \<in> set (leaderboards R)"
    unfolding singleSeasonRecords_fields [OF R] ex_history_board by simp
  have e: "TopNRecord.entries ex_season_board ! 0 \<in> set (TopNRecord.entries ex_season_board)"
    by (simp add: ex_season_board_def)
  have d: "distinct (map fst ex_history)" "(''QB:Rook'', [rook_y2]) \<in> set ex_history"
    "length [rook_y2] = 1" "or0 (SeasonSnapshot.passYds rook_y2) = 5000"
    by (simp_all add: ex_history_def rook_y2_def snapshot0_def)
  note t = single_season_players_excluded [OF R b refl e]
  from t d have "RecordEntry.position (TopNRecord.entries ex_season_board ! 0) @ CHR '':'' #
     RecordEntry.playerName (TopNRecord.entries ex_season_board ! 0) \<noteq> ''QB:Rook''"
    by blast
  with t ne b e d R show ?thesis by simp
qed

section \<open>Greatest seasons\<close>

lemma key_position_spec: "key_position (split_colon k) = spec_keyPosition k"
proof (induction k)
  case Nil
  show ?case by (simp add: spec_keyPosition_def)
next
  case (Cons c k)
  obtain w ws where s: "split_colon k = w # ws"
    using split_colon_nonempty [of k] by (cases "split_colon k") auto
  show ?case using Cons.IH s by (simp add: spec_keyPosition_def)
qed

lemma key_name_spec: "key_name (split_colon k) = spec_keyName k"
proof (induction k)
  case Nil
  show ?case by (simp add: spec_keyName_def)
next
  case (Cons c k)
  obtain w ws where s: "split_colon k = w # ws"
    using split_colon_nonempty [of k] by (cases "split_colon k") auto
  show ?case
  proof (cases "c = CHR '':''")
    case True
    have "key_name (split_colon (c # k)) = join_colon (split_colon k)" using True by simp
    then show ?thesis using True by (simp add: join_split_colon spec_keyName_def)
  next
    case False
    then show ?thesis using Cons.IH s by (simp add: spec_keyName_def)
  qed
qed

lemma greatSeason_spec: "greatSeason key s = spec_greatSeason key s"
  by (simp add: greatSeason_def spec_greatSeason_def Let_def key_position_spec key_name_spec)

lemma seasons_fold:
  "foldl (\<lambda>seasons (playerKey, snapshots).
            if length snapshots \<le> 1 then seasons
            else foldl (\<lambda>seasons snapshot. seasons @ [greatSeason playerKey snapshot])
                   seasons snapshots) acc history
   = acc @ spec_scoredSnapshots history"
proof (induction history arbitrary: acc)
  case Nil
  show ?case by (simp add: spec_scoredSnapshots_def)
next
  case (Cons x history)
  obtain k snaps where x: "x = (k, snaps)" by (cases x)
  have m: "map (greatSeason k) snaps = map (spec_greatSeason k) snaps"
    by (simp add: greatSeason_spec)
  show ?case
    unfolding foldl_Cons x Cons.IH
    by (simp add: spec_scoredSnapshots_def foldl_push not_le m)
qed

lemma greatestSeasons_eq:
  "greatestSeasons history =
     js_slice0 20 (js_sort (\<lambda>a b. Fin (GreatSeason.score b - GreatSeason.score a))
                     (spec_scoredSnapshots history))"
  using seasons_fold [of "[]" history] by (simp add: greatestSeasons_def)

lemma sorted_js_sort_score:
  "sorted_wrt (\<lambda>a b. GreatSeason.score a \<ge> GreatSeason.score b)
     (js_sort (\<lambda>a b. Fin (GreatSeason.score b - GreatSeason.score a)) xs)"
proof -
  have "sorted_wrt (\<lambda>a b. js_ge (Fin (GreatSeason.score a)) (Fin (GreatSeason.score b)))
     (js_sort (\<lambda>a b. js_sub (Fin (GreatSeason.score b)) (Fin (GreatSeason.score a))) xs)"
    by (rule sorted_js_sort_desc) simp
  then show ?thesis by (simp add: js_ge_def js_le_def not_less)
qed

lemma spec_scoredSnapshots_mem:
  "g \<in> set (spec_scoredSnapshots history) \<longleftrightarrow>
     (\<exists>key snaps s. (key, snaps) \<in> set history \<and> 1 < length snaps \<and> s \<in> set snaps \<and>
        g = spec_greatSeason key s)"
  by (auto simp: spec_scoredSnapshots_def split: if_splits)

lemma spec_key_rebuild:
  "CHR '':'' \<in> set k \<Longrightarrow> spec_keyPosition k @ CHR '':'' # spec_keyName k = k"
proof -
  assume c: "CHR '':'' \<in> set k"
  have "k = takeWhile (\<lambda>c. c \<noteq> CHR '':'') k @ dropWhile (\<lambda>c. c \<noteq> CHR '':'') k" by simp
  moreover have "dropWhile (\<lambda>c. c \<noteq> CHR '':'') k \<noteq> []" using c by (simp add: dropWhile_eq_Nil_conv)
  moreover then have "hd (dropWhile (\<lambda>c. c \<noteq> CHR '':'') k) = CHR '':''"
    using hd_dropWhile [of "\<lambda>c. c \<noteq> CHR '':''" k] by simp
  ultimately show ?thesis
    unfolding spec_keyPosition_def spec_keyName_def
    by (cases "dropWhile (\<lambda>c. c \<noteq> CHR '':'') k") (auto simp: drop_Suc)
qed

lemma ex_history_greatest:
  "greatestSeasons ex_history = [greatSeason ''QB:Tom'' tom_y2, greatSeason ''QB:Tom'' tom_y1]"
  by (simp add: greatestSeasons_def ex_history_def js_slice0_def greatSeason_def Let_def
        calculateSeasonScore_def tom_y1_def tom_y2_def ex_qb_season_def snapshot0_def)

lemma ex_history_top:
  "GreatSeason.playerName (greatSeason ''QB:Tom'' tom_y2) = ''Tom''"
  "GreatSeason.position (greatSeason ''QB:Tom'' tom_y2) = ''QB''"
  "GreatSeason.season (greatSeason ''QB:Tom'' tom_y2) = ''Y2''"
  "GreatSeason.score (greatSeason ''QB:Tom'' tom_y2) = 370"
  "GreatSeason.score (greatSeason ''QB:Tom'' tom_y1) = 60"
  "GreatSeason.stats (greatSeason ''QB:Tom'' tom_y2) =
     [(''Pass Yds'', 4000), (''Pass TD'', 30), (''Rush Yds'', 200)]"
  by (simp_all add: greatSeason_def Let_def calculateSeasonScore_def seasonStats_def
        tom_y1_def tom_y2_def ex_qb_season_def snapshot0_def)

text \<open>
  Claim C7. The greatest-seasons output consists of exactly the snapshots of the players
  with more than one recorded season, each scored by \<open>calculateSeasonScore\<close>, sorted
  descending by score and truncated to the top 20: it is the first 20 entries of a
  descending arrangement of the spec's entries for all those snapshots, it has
  \<open>min 20 k\<close> entries when there are \<open>k\<close> of them, and each of its entries carries the
  name and position of the key of a player with more than one recorded season, the
  season label of one of that player's snapshots, and that snapshot's score, key stats
  and award counts.
\<close>

theorem greatestSeasons_top20:
  "(\<exists>ys. mset ys = mset (spec_scoredSnapshots history) \<and>
         sorted_wrt (\<lambda>a b. GreatSeason.score a \<ge> GreatSeason.score b) ys \<and>
         greatestSeasons history = take 20 ys) \<and>
   length (greatestSeasons history) = min 20 (length (spec_scoredSnapshots history)) \<and>
   (\<forall>g \<in> set (greatestSeasons history).
      \<exists>key snaps s. (key, snaps) \<in> set history \<and> 1 < length snaps \<and> s \<in> set snaps \<and>
        GreatSeason.playerName g = spec_keyName key \<and>
        GreatSeason.position g = spec_keyPosition key \<and>
        (CHR '':'' \<in> set key \<longrightarrow>
           GreatSeason.position g @ CHR '':'' # GreatSeason.playerName g = key) \<and>
        GreatSeason.season g = SeasonSnapshot.season s \<and>
        GreatSeason.score g = calculateSeasonScore s (GreatSeason.position g) \<and>
        GreatSeason.stats g = seasonStats (GreatSeason.position g) s \<and>
        GreatSeason.awards g =
          \<lparr> Awards.mvp = or0 (SeasonSnapshot.mvp s), Awards.opoy = or0 (SeasonSnapshot.opoy s),
            Awards.sbmvp = or0 (SeasonSnapshot.sbmvp s), Awards.roty = or0 (SeasonSnapshot.roty s),
            Awards.rings = or0 (SeasonSnapshot.rings s) \<rparr>)"
proof -
  let ?ys = "js_sort (\<lambda>a b. Fin (GreatSeason.score b - GreatSeason.score a))
               (spec_scoredSnapshots history)"
  have eq: "greatestSeasons history = take 20 ?ys"
    by (simp add: greatestSeasons_eq js_slice0_def)
  have A: "\<exists>ys. mset ys = mset (spec_scoredSnapshots history) \<and>
         sorted_wrt (\<lambda>a b. GreatSeason.score a \<ge> GreatSeason.score b) ys \<and>
         greatestSeasons history = take 20 ys"
    using eq mset_js_sort sorted_js_sort_score by blast
  have B: "length (greatestSeasons history) = min 20 (length (spec_scoredSnapshots history))"
    by (simp add: eq length_js_sort min.commute)
  have C: "\<exists>key snaps s. (key, snaps) \<in> set history \<and> 1 < length snaps \<and> s \<in> set snaps \<and>
        GreatSeason.playerName g = spec_keyName key \<and>
        GreatSeason.position g = spec_keyPosition key \<and>
        (CHR '':'' \<in> set key \<longrightarrow>
           GreatSeason.position g @ CHR '':'' # GreatSeason.playerName g = key) \<and>
        GreatSeason.season g = SeasonSnapshot.season s \<and>
        GreatSeason.score g = calculateSeasonScore s (GreatSeason.position g) \<and>
        GreatSeason.stats g = seasonStats (GreatSeason.position g) s \<and>
        GreatSeason.awards g =
          \<lparr> Awards.mvp = or0 (SeasonSnapshot.mvp s), Awards.opoy = or0 (SeasonSnapshot.opoy s),
            Awards.sbmvp = or0 (SeasonSnapshot.sbmvp s), Awards.roty = or0 (SeasonSnapshot.roty s),
            Awards.rings = or0 (SeasonSnapshot.rings s) \<rparr>"
    if "g \<in> set (greatestSeasons history)" for g
  proof -
    have "g \<in> set ?ys" using that eq by (auto dest: in_set_takeD)
    then have "g \<in> set (spec_scoredSnapshots history)" by (simp add: set_js_sort)
    then obtain key snaps s where ks: "(key, snaps) \<in> set history" "1 < length snaps"
      "s \<in> set snaps" "g = spec_greatSeason key s"
      unfolding spec_scoredSnapshots_mem by blast
    have f: "GreatSeason.playerName g = spec_keyName key"
      "GreatSeason.position g = spec_keyPosition key"
      "GreatSeason.season g = SeasonSnapshot.season s"
      "GreatSeason.score g = calculateSeasonScore s (GreatSeason.position g)"
      "GreatSeason.stats g = seasonStats (GreatSeason.position g) s"
      "GreatSeason.awards g =
          \<lparr> Awards.mvp = or0 (SeasonSnapshot.mvp s), Awards.opoy = or0 (SeasonSnapshot.opoy s),
            Awards.sbmvp = or0 (SeasonSnapshot.sbmvp s), Awards.roty = or0 (SeasonSnapshot.roty s),
            Awards.rings = or0 (SeasonSnapshot.rings s) \<rparr>"
      by (simp_all add: ks(4) spec_greatSeason_def)
    have r: "CHR '':'' \<in> set key \<longrightarrow>
           GreatSeason.position g @ CHR '':'' # GreatSeason.playerName g = key"
      using spec_key_rebuild [of key] f(1,2) by simp
    show ?thesis
      apply (rule exI [of _ key], rule exI [of _ snaps], rule exI [of _ s])
      using ks(1,2,3) f r by (intro conjI)
  qed
  show ?thesis using A B C by (intro conjI ballI)
qed

theorem greatestSeasons_top20_witness:
  "greatestSeasons ex_history = [greatSeason ''QB:Tom'' tom_y2, greatSeason ''QB:Tom'' tom_y1] \<and>
   greatSeason ''QB:Tom'' tom_y2 \<in> set (greatestSeasons ex_history) \<and>
   GreatSeason.playerName (greatSeason ''QB:Tom'' tom_y2) = ''Tom'' \<and>
   GreatSeason.position (greatSeason ''QB:Tom'' tom_y2) = ''QB'' \<and>
   GreatSeason.season (greatSeason ''QB:Tom'' tom_y2) = ''Y2'' \<and>
   GreatSeason.score (greatSeason ''QB:Tom'' tom_y2) = 370 \<and>
   GreatSeason.score (greatSeason ''QB:Tom'' tom_y1) = 60 \<and>
   GreatSeason.stats (greatSeason ''QB:Tom'' tom_y2) =
     [(''Pass Yds'', 4000), (''Pass TD'', 30), (''Rush Yds'', 200)] \<and>
   length (greatestSeasons ex_history) = min 20 (length (spec_scoredSnapshots ex_history)) \<and>
   (\<exists>key snaps s. (key, snaps) \<in> set ex_history \<and> 1 < length snaps \<and> s \<in> set snaps \<and>
      GreatSeason.playerName (greatSeason ''QB:Tom'' tom_y2) = spec_keyName key \<and>
      GreatSeason.position (greatSeason ''QB:Tom'' tom_y2) = spec_keyPosition key \<and>
      GreatSeason.season (greatSeason ''QB:Tom'' tom_y2) = SeasonSnapshot.season s \<and>
      GreatSeason.score (greatSeason ''QB:Tom'' tom_y2) =
        calculateSeasonScore s (GreatSeason.position (greatSeason ''QB:Tom'' tom_y2)))"
proof -
  have m: "greatSeason ''QB:Tom'' tom_y2 \<in> set (greatestSeasons ex_history)"
    by (simp add: ex_history_greatest)
  from greatestSeasons_top20 [of ex_history] m
  have e: "\<exists>key snaps s. (key, snaps) \<in> set ex_history \<and> 1 < length snaps \<and> s \<in> set snaps \<and>
      GreatSeason.playerName (greatSeason ''QB:Tom'' tom_y2) = spec_keyName key \<and>
      GreatSeason.position (greatSeason ''QB:Tom'' tom_y2) = spec_keyPosition key \<and>
      GreatSeason.season (greatSeason ''QB:Tom'' tom_y2) = SeasonSnapshot.season s \<and>
      GreatSeason.score (greatSeason ''QB:Tom'' tom_y2) =
        calculateSeasonScore s (GreatSeason.position (greatSeason ''QB:Tom'' tom_y2))"
    by blast
  from greatestSeasons_top20 [of ex_history]
  have l: "length (greatestSeasons ex_history) = min 20 (length (spec_scoredSnapshots ex_history))"
    by blast
  show ?thesis
    using m e l ex_history_greatest ex_history_top by (intro conjI)
qed

section \<open>Inputs are left unchanged\<close>

lemma arr_new_frame:
  "arr_new xs h = (a, h') \<Longrightarrow>
     a = length h \<and> length h' = Suc (length h) \<and> h' ! a = xs \<and> take (length h) h' = h"
  by (auto simp: arr_new_def)

lemma arr_sort_fresh_frame:
  "arr_sort cmp a h = (a', h') \<Longrightarrow> n \<le> a \<Longrightarrow> a < length h \<Longrightarrow>
     a' = a \<and> length h' = length h \<and> h' ! a = js_sort cmp (h ! a) \<and> take n h' = take n h"
  by (auto simp: arr_sort_def)

lemma take_take_le: "n \<le> m \<Longrightarrow> take m h' = h \<Longrightarrow> take n h' = take n h"
  by (metis min.absorb1 take_take)

lemma findTopN_st_frame:
  assumes v: "players < length h"
  shows "take (length h) (snd (findTopN_st players f st descr n h)) = h \<and>
         fst (findTopN_st players f st descr n h) = findTopN (h ! players) f st descr n"
proof (cases "length (h ! players) = 0")
  case True
  then show ?thesis by (simp add: findTopN_st_def findTopN_def)
next
  case False
  let ?N = "length h"
  obtain a1 h1 where c1: "arr_copy players h = (a1, h1)" by (cases "arr_copy players h")
  obtain a2 h2 where c2: "arr_filter (\<lambda>p. js_gt (f p) (Fin 0)) a1 h1 = (a2, h2)"
    by (cases "arr_filter (\<lambda>p. js_gt (f p) (Fin 0)) a1 h1")
  obtain a3 h3 where c3: "arr_sort (\<lambda>a b. js_sub (f b) (f a)) a2 h2 = (a3, h3)"
    by (cases "arr_sort (\<lambda>a b. js_sub (f b) (f a)) a2 h2")
  obtain a4 h4 where c4: "arr_slice0 n a3 h3 = (a4, h4)" by (cases "arr_slice0 n a3 h3")
  have c1': "arr_new (h ! players) h = (a1, h1)" using c1 by (simp add: arr_copy_def)
  from arr_new_frame [OF c1']
  have f1: "a1 = ?N" "length h1 = Suc ?N" "h1 ! a1 = h ! players" "take ?N h1 = h"
    by auto
  have c2': "arr_new (filter (\<lambda>p. js_gt (f p) (Fin 0)) (h1 ! a1)) h1 = (a2, h2)"
    using c2 by (simp add: arr_filter_def)
  from arr_new_frame [OF c2']
  have f2: "a2 = Suc ?N" "length h2 = Suc (Suc ?N)"
    "h2 ! a2 = filter (\<lambda>p. js_gt (f p) (Fin 0)) (h ! players)" "take (Suc ?N) h2 = h1"
    using f1 by auto
  have t2: "take ?N h2 = h" using take_take_le [of ?N "Suc ?N" h2 h1] f2(4) f1(4) by simp
  have "?N \<le> a2" "a2 < length h2" using f2 by simp_all
  from arr_sort_fresh_frame [OF c3 this]
  have f3: "a3 = a2" "length h3 = length h2"
    "h3 ! a3 = js_sort (\<lambda>a b. js_sub (f b) (f a)) (h2 ! a2)" "take ?N h3 = take ?N h2"
    by auto
  have c4': "arr_new (js_slice0 n (h3 ! a3)) h3 = (a4, h4)"
    using c4 by (simp add: arr_slice0_def)
  from arr_new_frame [OF c4']
  have f4: "a4 = length h3" "h4 ! a4 = js_slice0 n (h3 ! a3)" "take (length h3) h4 = h3"
    by auto
  have t4: "take ?N h4 = h"
    using take_take_le [of ?N "length h3" h4 h3] f4(3) f3 f2(2) t2 by simp
  have top: "h4 ! a4 = findTopN_sorted (h ! players) f n"
    by (simp add: f4(2) f3(3) f2(3) findTopN_sorted_def)
  have run: "findTopN_st players f st descr n h =
     (if length (h4 ! a4) = 0 then (None, h4)
      else (Some \<lparr> TopNRecord.stat = st, TopNRecord.description = descr,
                   TopNRecord.entries = map (entryOf st f) (h4 ! a4) \<rparr>, h4))"
    using False by (simp add: findTopN_st_def c1 c2 c3 c4)
  show ?thesis
    using False t4 by (simp add: run top findTopN_def Let_def)
qed

lemma leader_st_frame:
  assumes v: "xs < length h"
  shows "take (length h) (snd (leader_st keep cmp xs h)) = h \<and>
         fst (leader_st keep cmp xs h) = js_first (js_sort cmp (filter keep (h ! xs)))"
proof -
  let ?N = "length h"
  obtain a1 h1 where c1: "arr_filter keep xs h = (a1, h1)" by (cases "arr_filter keep xs h")
  obtain a2 h2 where c2: "arr_sort cmp a1 h1 = (a2, h2)" by (cases "arr_sort cmp a1 h1")
  have c1': "arr_new (filter keep (h ! xs)) h = (a1, h1)" using c1 by (simp add: arr_filter_def)
  from arr_new_frame [OF c1']
  have f1: "a1 = ?N" "length h1 = Suc ?N" "h1 ! a1 = filter keep (h ! xs)" "take ?N h1 = h"
    by auto
  have "?N \<le> a1" "a1 < length h1" using f1 by simp_all
  from arr_sort_fresh_frame [OF c2 this]
  have f2: "a2 = a1" "h2 ! a2 = js_sort cmp (h1 ! a1)" "take ?N h2 = take ?N h1"
    by auto
  have run: "leader_st keep cmp xs h = (js_first (h2 ! a2), h2)"
    by (simp add: leader_st_def c1 c2)
  show ?thesis using f1 f2 by (simp add: run)
qed

text \<open>In the store an in-place sort of the input array itself would be visible.\<close>

lemma arr_sort_in_place_example:
  "snd (arr_sort (\<lambda>a b. js_sub (qbPassYds_value b) (qbPassYds_value a)) 0 [ex3]) ! 0 \<noteq> ex3"
  by (simp add: arr_sort_def ex3_def qb_def player0_def qbPassYds_value_def)

text \<open>
  Claim C9. Computing a leaderboard with \<open>findTopN\<close>, or a single leader by filter and
  sort, leaves the input array as it was, element for element and in its original order
  (as it leaves every other array that existed before), because the only in-place
  operation, \<open>sort\<close>, runs on an array that \<open>filter\<close> has just allocated; and the
  results are those of the computations on the input's contents.
\<close>

theorem inputs_not_mutated:
  "players < length h \<longrightarrow>
     (\<forall>a < length h. snd (findTopN_st players f st descr n h) ! a = h ! a) \<and>
     snd (findTopN_st players f st descr n h) ! players = h ! players \<and>
     fst (findTopN_st players f st descr n h) = findTopN (h ! players) f st descr n \<and>
     (\<forall>a < length h. snd (leader_st keep cmp players h) ! a = h ! a) \<and>
     snd (leader_st keep cmp players h) ! players = h ! players \<and>
     fst (leader_st keep cmp players h) = js_first (js_sort cmp (filter keep (h ! players))) \<and>
     snd (topQBEff_st players h) ! players = h ! players \<and>
     fst (topQBEff_st players h) = topQBEff (h ! players)"
proof
  assume v: "players < length h"
  have old: "h' ! a = h ! a" if "take (length h) h' = h" "a < length h" for h' a
    using that by (metis nth_take)
  note A = findTopN_st_frame [OF v, of f st descr n]
  note B = leader_st_frame [OF v, of keep cmp]
  note C = leader_st_frame [OF v, of "\<lambda>p. CareerPlayer.attempts p > 200"
    "\<lambda>a b. js_sub (js_div (Fin (CareerPlayer.passYds b)) (Fin (CareerPlayer.attempts b)))
                   (js_div (Fin (CareerPlayer.passYds a)) (Fin (CareerPlayer.attempts a)))"]
  show "(\<forall>a < length h. snd (findTopN_st players f st descr n h) ! a = h ! a) \<and>
     snd (findTopN_st players f st descr n h) ! players = h ! players \<and>
     fst (findTopN_st players f st descr n h) = findTopN (h ! players) f st descr n \<and>
     (\<forall>a < length h. snd (leader_st keep cmp players h) ! a = h ! a) \<and>
     snd (leader_st keep cmp players h) ! players = h ! players \<and>
     fst (leader_st keep cmp players h) = js_first (js_sort cmp (filter keep (h ! players))) \<and>
     snd (topQBEff_st players h) ! players = h ! players \<and>
     fst (topQBEff_st players h) = topQBEff (h ! players)"
    using A B C v old [of "snd (findTopN_st players f st descr n h)"]
      old [of "snd (leader_st keep cmp players h)"]
      old [of "snd (topQBEff_st players h)"]
    by (simp add: topQBEff_st_def topQBEff_def)
qed

theorem inputs_not_mutated_witness:
  "(0::nat) < length [ex3] \<and>
   snd (findTopN_st 0 qbPassYds_value ''Career Passing Yards'' ''Total passing yards'' 2 [ex3]) ! 0
     = ex3 \<and>
   fst (findTopN_st 0 qbPassYds_value ''Career Passing Yards'' ''Total passing yards'' 2 [ex3])
     = Some ex3_board \<and>
   snd (leader_st (\<lambda>p. CareerPlayer.passYds p > 0)
          (\<lambda>a b. js_sub (qbPassYds_value b) (qbPassYds_value a)) 0 [ex3]) ! 0 = ex3 \<and>
   fst (leader_st (\<lambda>p. CareerPlayer.passYds p > 0)
          (\<lambda>a b. js_sub (qbPassYds_value b) (qbPassYds_value a)) 0 [ex3])
     = Some (qb ''A'' 300 16 ''Active'') \<and>
   snd (topQBEff_st 0 [ex3]) ! 0 = ex3"
proof -
  have v: "(0::nat) < length [ex3]" by simp
  have l: "js_first (js_sort (\<lambda>a b. js_sub (qbPassYds_value b) (qbPassYds_value a))
             (filter (\<lambda>p. CareerPlayer.passYds p > 0) ex3)) = Some (qb ''A'' 300 16 ''Active'')"
    by (simp add: ex3_def qb_def player0_def qbPassYds_value_def)
  from inputs_not_mutated [of 0 "[ex3]" qbPassYds_value "''Career Passing Yards''"
      "''Total passing yards''" 2 "\<lambda>p. CareerPlayer.passYds p > 0"
      "\<lambda>a b. js_sub (qbPassYds_value b) (qbPassYds_value a)"] v
  show ?thesis by (simp add: ex3_top2 l)
qed

end
